theory Spec2Isabelle
  imports Complex_Main "HOL-Library.Word"
begin

unbundle bit_operations_syntax

section \<open>Machine types\<close>

text \<open>
  The target is the 32-bit little-endian MIPS of the PlayStation: \<open>int\<close>, \<open>uint32_t\<close> and
  \<open>size_t\<close> are all 32 bits wide.  A C \<open>int\<close> is kept as a \<open>32 word\<close> and read through
  \<open>sint\<close> (comparisons \<open>\<le>s\<close>, \<open><s\<close>) where the source compares signed values; unsigned
  values are read through \<open>uint\<close>/\<open>unat\<close>.  Addition, subtraction and multiplication wrap.
\<close>

type_synonym u8 = "8 word"
type_synonym u16 = "16 word"
type_synonym u32 = "32 word"
type_synonym s32 = "32 word"

section \<open>The .VAG header\<close>

text \<open>
  \<open>VAG_Header\<close> as the little-endian host reads it out of the sector buffer.  The field
  \<open>size\<close> of the source is called \<open>size_field\<close> here.
\<close>

record VAG_Header =
  magic :: u32
  version :: u32
  interleave :: u32
  size_field :: u32
  sample_rate :: u32
  reserved :: "u16 list"
  channels :: u16
  name :: "u8 list"

text \<open>The macro \<open>SWAP_ENDIAN\<close>: the mask is applied first, then the shift.\<close>

definition SWAP_ENDIAN :: "u32 \<Rightarrow> u32" where
  "SWAP_ENDIAN x =
     (push_bit 24 (x AND 0x000000ff) OR
      push_bit 8 (x AND 0x0000ff00) OR
      drop_bit 8 (x AND 0x00ff0000) OR
      drop_bit 24 (x AND 0xff000000))"

text \<open>
  Four consecutive bytes \<open>b0 b1 b2 b3\<close> of the sector, as the little-endian host loads
  them into a \<open>uint32_t\<close>, and the number they encode in big-endian wire order.
\<close>

definition le32 :: "u8 \<Rightarrow> u8 \<Rightarrow> u8 \<Rightarrow> u8 \<Rightarrow> u32" where
  "le32 b0 b1 b2 b3 =
     (ucast b0 OR push_bit 8 (ucast b1) OR push_bit 16 (ucast b2) OR push_bit 24 (ucast b3))"

definition be32 :: "u8 \<Rightarrow> u8 \<Rightarrow> u8 \<Rightarrow> u8 \<Rightarrow> u32" where
  "be32 b0 b1 b2 b3 =
     (push_bit 24 (ucast b0) OR push_bit 16 (ucast b1) OR push_bit 8 (ucast b2) OR ucast b3)"

section \<open>Stream state\<close>

record StreamReadContext =
  start_lba :: s32
  stream_length :: s32
  next_sector :: s32
  refill_length :: u32

text \<open>
  \<open>Stream_Config\<close> is declared in \<open>stream.h\<close>; only the fields that
  \<open>Audio_LoadStream\<close> assigns are kept (the two callbacks are set to null).
\<close>

record Stream_Config =
  cfg_spu_address :: u32
  cfg_channel_mask :: u32
  cfg_interleave :: u32
  cfg_buffer_size :: u32
  cfg_refill_threshold :: u32
  cfg_sample_rate :: u32

text \<open>
  Everything \<open>Audio_LoadStream\<close> writes before it starts to fill the buffer: the
  configuration handed to \<open>Stream_Init\<close>, the two fields of \<open>stream_ctx\<close> it sets itself,
  the left/right volume registers of the channels in index order, and \<open>read_ctx\<close>.
\<close>

record Audio_State =
  stream_config :: Stream_Config
  stream_sample_rate :: u32
  stream_samples :: u32
  spu_ch_vol :: "(u16 \<times> u16) list"
  read_ctx :: StreamReadContext

definition RAM_BUFFER_SIZE :: u32 where
  "RAM_BUFFER_SIZE = 0x18000"

definition REFILL_THRESHOLD :: u32 where
  "REFILL_THRESHOLD = 24"

definition STREAM_BUFFER_ADDR :: u32 where
  "STREAM_BUFFER_ADDR = 0x1010"

section \<open>The completion callback\<close>

datatype CdlIntrResult =
  CdlNoIntr | CdlDataReady | CdlComplete | CdlAcknowledge | CdlDataEnd | CdlDiskError

text \<open>
  \<open>cd_read_handler\<close> reads \<open>read_ctx.refill_length\<close> and calls \<open>Stream_Feed\<close> unless the
  event is \<open>CdlDiskError\<close>.  The result is the byte count passed to \<open>Stream_Feed\<close>
  (\<open>None\<close>: no call) and \<open>read_ctx\<close> after the handler.
\<close>

definition cd_read_handler ::
  "CdlIntrResult \<Rightarrow> StreamReadContext \<Rightarrow> u32 option \<times> StreamReadContext" where
  "cd_read_handler event ctx =
     (if event \<noteq> CdlDiskError then (Some (refill_length ctx * 2048), ctx) else (None, ctx))"

section \<open>The read scheduler\<close>

text \<open>
  What one call of \<open>Audio_FeedStream\<close> observes of the drive and of the ring buffer, both
  outside this file: whether \<open>CdReadSync(1, 0) > 0\<close>, the value of
  \<open>Stream_GetRefillLength\<close> and the value of \<open>Stream_GetFeedPtr\<close> (both in bytes).
\<close>

record Poll =
  cd_busy :: bool
  refill_bytes :: u32
  feed_bytes :: u32

text \<open>
  The loop \<open>while (max_length <= 0)\<close>.  It need not terminate, so it is a partial
  function: \<open>None\<close> is the loop that runs forever.
\<close>

partial_function (option) normalize_loop :: "s32 \<Rightarrow> s32 \<Rightarrow> s32 \<Rightarrow> (s32 \<times> s32) option" where
  "normalize_loop len nxt max_length =
     (if max_length \<le>s 0
      then normalize_loop len (nxt - len) (max_length + len)
      else Some (nxt, max_length))"

text \<open>
  \<open>Audio_FeedStream\<close>: the returned flag, the read handed to the drive (the sector
  passed to \<open>CdIntToPos\<close> and the sector count passed to \<open>CdRead\<close>) if there is one, and
  \<open>read_ctx\<close> afterwards.  The comparison \<open>refill_length > max_length\<close> is between a
  \<open>size_t\<close> and an \<open>int\<close>, hence unsigned.
\<close>

definition Audio_FeedStream ::
  "Poll \<Rightarrow> StreamReadContext \<Rightarrow> (bool \<times> (s32 \<times> u32) option \<times> StreamReadContext) option" where
  "Audio_FeedStream p ctx =
     (if cd_busy p then Some (True, None, ctx)
      else if refill_bytes p < REFILL_THRESHOLD * 2048 then Some (False, None, ctx)
      else
        (case normalize_loop (stream_length ctx) (next_sector ctx)
                (stream_length ctx - next_sector ctx) of
           None \<Rightarrow> None
         | Some (nxt, max_length) \<Rightarrow>
             let refill = feed_bytes p div 2048;
                 refill = (if refill > max_length then max_length else refill)
             in Some (True, Some (start_lba ctx + nxt, refill),
                      ctx\<lparr>next_sector := nxt + refill, refill_length := refill\<rparr>)))"

section \<open>Opening a stream\<close>

text \<open>
  Modelled from the spec: \<open>ErrorLock\<close> is defined in \<open>main.c\<close>, which is not among the
  sources; it is the not-found error that is fatal to opening the stream, so the opening
  ends there with the message written to \<open>error_msg\<close>.  A division by zero is undefined
  in C; here it ends the opening as well (\<open>DivideTrap\<close>).
\<close>

datatype load_error = ErrorLock string | DivideTrap

definition num_channels :: "VAG_Header \<Rightarrow> s32" where
  "num_channels vag = (if channels vag \<noteq> 0 then ucast (channels vag) else 2)"

text \<open>The division is unsigned; a zero divisor traps.\<close>

definition num_chunks :: "VAG_Header \<Rightarrow> s32 option" where
  "num_chunks vag =
     (if interleave vag = 0 then None
      else Some ((SWAP_ENDIAN (size_field vag) + interleave vag - 1) div interleave vag))"

definition channel_mask_loop :: "nat \<Rightarrow> u32" where
  "channel_mask_loop n = foldl (\<lambda>m ch. push_bit 1 m OR 1) 0 [0..<n]"

definition channel_vol :: "nat \<Rightarrow> u16 \<times> u16" where
  "channel_vol ch = (if ch mod 2 \<noteq> 0 then (0x0000, 0x3fff) else (0x3fff, 0x0000))"

text \<open>
  \<open>Audio_LoadStream\<close> up to the assignment of \<open>read_ctx.refill_length\<close>.  \<open>file_pos\<close> is
  the result of \<open>CdSearchFile\<close> (\<open>None\<close>: not found) as the sector number \<open>CdPosToInt\<close>
  gives; \<open>vag\<close> is the header found in the buffer after the read.  \<open>ErrorLock\<close> does not
  return.  The parameter \<open>loop\<close> is not used by the source.
\<close>

definition Audio_LoadStream_setup ::
  "string \<Rightarrow> bool \<Rightarrow> s32 option \<Rightarrow> VAG_Header \<Rightarrow> load_error + Audio_State" where
  "Audio_LoadStream_setup path loop file_pos vag =
     (case file_pos of
        None \<Rightarrow> Inl (ErrorLock (''[Audio_LoadStream] cant find '' @ path))
      | Some pos \<Rightarrow>
          (case num_chunks vag of
             None \<Rightarrow> Inl DivideTrap
           | Some chunks \<Rightarrow>
               Inr \<lparr>stream_config =
                      \<lparr>cfg_spu_address = STREAM_BUFFER_ADDR,
                       cfg_channel_mask = channel_mask_loop (unat (num_channels vag)),
                       cfg_interleave = interleave vag,
                       cfg_buffer_size = RAM_BUFFER_SIZE,
                       cfg_refill_threshold = 0,
                       cfg_sample_rate = SWAP_ENDIAN (sample_rate vag)\<rparr>,
                    stream_sample_rate = SWAP_ENDIAN (sample_rate vag),
                    stream_samples = (SWAP_ENDIAN (size_field vag) div 16) * 28,
                    spu_ch_vol = map channel_vol [0..<unat (num_channels vag)],
                    read_ctx =
                      \<lparr>start_lba = pos + 1,
                       stream_length =
                         (num_channels vag * chunks * interleave vag + 2047) div 2048,
                       next_sector = 0,
                       refill_length = 0\<rparr>\<rparr>))"

text \<open>
  The loop \<open>while (Audio_FeedStream())\<close> that ends \<open>Audio_LoadStream\<close>: \<open>env i\<close> is what the
  \<open>i\<close>-th call observes.  The reads it hands to the drive are collected in order.
\<close>

partial_function (option) fill_loop ::
  "(nat \<Rightarrow> Poll) \<Rightarrow> nat \<Rightarrow> (s32 \<times> u32) list \<Rightarrow> StreamReadContext
     \<Rightarrow> ((s32 \<times> u32) list \<times> StreamReadContext) option" where
  "fill_loop env i reads ctx =
     (case Audio_FeedStream (env i) ctx of
        None \<Rightarrow> None
      | Some (r, rd, ctx') \<Rightarrow>
          if r then fill_loop env (Suc i) (reads @ (case rd of None \<Rightarrow> [] | Some q \<Rightarrow> [q])) ctx'
          else Some (reads @ (case rd of None \<Rightarrow> [] | Some q \<Rightarrow> [q]), ctx'))"

definition Audio_LoadStream ::
  "(nat \<Rightarrow> Poll) \<Rightarrow> string \<Rightarrow> bool \<Rightarrow> s32 option \<Rightarrow> VAG_Header
     \<Rightarrow> (load_error + (s32 \<times> u32) list \<times> Audio_State) option" where
  "Audio_LoadStream env path loop file_pos vag =
     (case Audio_LoadStream_setup path loop file_pos vag of
        Inl e \<Rightarrow> Some (Inl e)
      | Inr st \<Rightarrow>
          (case fill_loop env 0 [] (read_ctx st) of
             None \<Rightarrow> None
           | Some (reads, ctx) \<Rightarrow> Some (Inr (reads, st\<lparr>read_ctx := ctx\<rparr>))))"

section \<open>Runs of the scheduler\<close>

text \<open>
  After the stream is open, the main loop calls \<open>Audio_FeedStream\<close> and the drive's
  interrupt calls \<open>cd_read_handler\<close>, in some order.  \<open>run\<close> executes such a sequence and
  returns the reads handed to the drive, in order, and the final \<open>read_ctx\<close>.
\<close>

datatype event = Tick Poll | Completion CdlIntrResult

fun run :: "event list \<Rightarrow> StreamReadContext \<Rightarrow> ((s32 \<times> u32) list \<times> StreamReadContext) option" where
  "run [] ctx = Some ([], ctx)"
| "run (Tick p # es) ctx =
     (case Audio_FeedStream p ctx of
        None \<Rightarrow> None
      | Some (r, rd, ctx') \<Rightarrow>
          (case run es ctx' of
             None \<Rightarrow> None
           | Some (reads, ctx'') \<Rightarrow> Some ((case rd of None \<Rightarrow> [] | Some q \<Rightarrow> [q]) @ reads, ctx'')))"
| "run (Completion ev # es) ctx = run es (snd (cd_read_handler ev ctx))"

text \<open>The sector offset at which the next read would start: the cursor, normalised.\<close>

definition cursor :: "StreamReadContext \<Rightarrow> int" where
  "cursor ctx = uint (next_sector ctx) mod uint (stream_length ctx)"

section \<open>The ring buffer\<close>

text \<open>
  Modelled from the spec: \<open>stream.c\<close> and \<open>stream.h\<close> (\<open>Stream_Init\<close>,
  \<open>Stream_GetRefillLength\<close>, \<open>Stream_GetFeedPtr\<close>, \<open>Stream_Feed\<close> and the drain engine)
  are not among the sources.  The spec describes the ring buffer as a byte-addressed
  circular region of a capacity fixed at configuration time, with a write cursor that
  only this system advances (\<open>Feed\<close> commits a completed transfer) and a read cursor
  that only the drain engine advances; \<open>GetRefillLength\<close> is the free space and
  \<open>GetFeedPtr\<close> the length that may be written at the write cursor.  The state kept
  here is the capacity, the write cursor and the number of bytes written and not yet
  drained; the writable length is the free space, cut at the end of the region.
\<close>

record RingBuffer =
  rb_size :: nat
  rb_write :: nat
  rb_used :: nat

definition Stream_Init :: "Stream_Config \<Rightarrow> RingBuffer" where
  "Stream_Init config = \<lparr>rb_size = unat (cfg_buffer_size config), rb_write = 0, rb_used = 0\<rparr>"

definition Stream_GetRefillLength :: "RingBuffer \<Rightarrow> u32" where
  "Stream_GetRefillLength rb = of_nat (rb_size rb - rb_used rb)"

definition Stream_GetFeedPtr :: "RingBuffer \<Rightarrow> u32" where
  "Stream_GetFeedPtr rb = of_nat (min (rb_size rb - rb_used rb) (rb_size rb - rb_write rb))"

definition Stream_Feed :: "u32 \<Rightarrow> RingBuffer \<Rightarrow> RingBuffer" where
  "Stream_Feed n rb =
     rb\<lparr>rb_write := (rb_write rb + unat n) mod rb_size rb, rb_used := rb_used rb + unat n\<rparr>"

definition Stream_Drain :: "nat \<Rightarrow> RingBuffer \<Rightarrow> RingBuffer" where
  "Stream_Drain k rb = rb\<lparr>rb_used := rb_used rb - k\<rparr>"

text \<open>What a call of \<open>Audio_FeedStream\<close> observes of this ring buffer.\<close>

definition observe :: "bool \<Rightarrow> RingBuffer \<Rightarrow> Poll" where
  "observe busy rb =
     \<lparr>cd_busy = busy, refill_bytes = Stream_GetRefillLength rb,
      feed_bytes = Stream_GetFeedPtr rb\<rparr>"

text \<open>
  The scheduler together with the ring buffer: calls of \<open>Audio_FeedStream\<close> (with the
  drive busy or not), completions, whose \<open>Stream_Feed\<close> now acts on the ring buffer, and
  the drain engine taking bytes out, in any order.
\<close>

datatype sys_event = Feed_tick bool | Read_done CdlIntrResult | Drained nat

fun sys_run :: "sys_event list \<Rightarrow> StreamReadContext \<Rightarrow> RingBuffer
     \<Rightarrow> ((s32 \<times> u32) list \<times> StreamReadContext \<times> RingBuffer) option" where
  "sys_run [] ctx rb = Some ([], ctx, rb)"
| "sys_run (Feed_tick busy # es) ctx rb =
     (case Audio_FeedStream (observe busy rb) ctx of
        None \<Rightarrow> None
      | Some (r, rd, ctx') \<Rightarrow>
          (case sys_run es ctx' rb of
             None \<Rightarrow> None
           | Some (reads, ctx'', rb'') \<Rightarrow>
               Some ((case rd of None \<Rightarrow> [] | Some q \<Rightarrow> [q]) @ reads, ctx'', rb'')))"
| "sys_run (Read_done ev # es) ctx rb =
     sys_run es (snd (cd_read_handler ev ctx))
       (case fst (cd_read_handler ev ctx) of None \<Rightarrow> rb | Some n \<Rightarrow> Stream_Feed n rb)"
| "sys_run (Drained k # es) ctx rb = sys_run es ctx (Stream_Drain k rb)"

section \<open>Auxiliary notions for the proofs\<close>

text \<open>
  The range in which \<open>Audio_LoadStream\<close> and \<open>Audio_FeedStream\<close> keep \<open>read_ctx\<close>
  (\<open>ctx_inv\<close>; \<open>ctx_ok\<close> adds that the stream is not empty), the cursor after the
  subtraction loop (\<open>wrap_cursor\<close>), the sector count of the read issued from a state
  (\<open>issue_len\<close>), and the sector counts of reads (\<open>read_len\<close>, \<open>reads_total\<close>).
\<close>

definition ctx_inv :: "StreamReadContext \<Rightarrow> bool" where
  "ctx_inv ctx = (0 \<le>s stream_length ctx \<and> 0 \<le>s next_sector ctx
                  \<and> next_sector ctx \<le>s stream_length ctx)"

definition ctx_ok :: "StreamReadContext \<Rightarrow> bool" where
  "ctx_ok ctx = (0 <s stream_length ctx \<and> 0 \<le>s next_sector ctx
                 \<and> next_sector ctx \<le>s stream_length ctx)"

definition wrap_cursor :: "StreamReadContext \<Rightarrow> s32" where
  "wrap_cursor ctx = (if next_sector ctx = stream_length ctx then 0 else next_sector ctx)"

definition issue_len :: "Poll \<Rightarrow> StreamReadContext \<Rightarrow> u32" where
  "issue_len p ctx = min (feed_bytes p div 2048) (stream_length ctx - wrap_cursor ctx)"

definition read_len :: "(s32 \<times> u32) option \<Rightarrow> int" where
  "read_len rd = (case rd of None \<Rightarrow> 0 | Some q \<Rightarrow> uint (snd q))"

definition reads_total :: "(s32 \<times> u32) list \<Rightarrow> int" where
  "reads_total reads = sum_list (map (\<lambda>q. uint (snd q)) reads)"

text \<open>
  The ring buffer has the capacity \<open>Audio_LoadStream\<close> configures and its write cursor
  stands on a sector boundary inside it.
\<close>

definition rb_ok :: "RingBuffer \<Rightarrow> bool" where
  "rb_ok rb = (rb_size rb = unat RAM_BUFFER_SIZE \<and> rb_write rb < rb_size rb
               \<and> 2048 dvd rb_write rb)"

section \<open>Signed and unsigned readings of a 32-bit word\<close>

lemma sint_32: "sint (w :: 32 word) = (uint w + 2 ^ 31) mod 2 ^ 32 - 2 ^ 31"
  using int_word_sint[of "uint w", where 'a = 32] by simp

lemma uint_32_bounds: "0 \<le> uint (w :: 32 word) \<and> uint w < 4294967296"
  using uint_bounded[of w] by simp

lemma sint_32_small: "uint (w :: 32 word) < 2147483648 \<Longrightarrow> sint w = uint w"
  using uint_32_bounds[of w] unfolding sint_32 by (simp add: mod_pos_pos_trivial)

lemma sint_32_big:
  assumes "\<not> uint (w :: 32 word) < 2147483648"
  shows "sint w = uint w - 4294967296"
proof -
  have "(uint w + 2147483648) mod 4294967296 = (uint w + 2147483648 - 4294967296) mod 4294967296"
    by (simp only: minus_mod_self2)
  also have "\<dots> = uint w - 2147483648"
    using assms uint_32_bounds[of w] by (simp add: mod_pos_pos_trivial)
  finally show ?thesis unfolding sint_32 by simp
qed

lemma sint_32_cases:
  "sint (w :: 32 word) = (if uint w < 2147483648 then uint w else uint w - 4294967296)"
  by (simp add: sint_32_small sint_32_big)

lemma nonneg_iff: "(0 \<le>s (x :: 32 word)) = (uint x < 2147483648)"
  using uint_32_bounds[of x] by (simp add: word_sle_eq sint_32_cases)

lemma pos_iff: "(0 <s (x :: 32 word)) = (0 < uint x \<and> uint x < 2147483648)"
  using uint_32_bounds[of x] by (simp add: word_sless_alt sint_32_cases)

lemma sle0_iff: "((x :: 32 word) \<le>s 0) = (x = 0 \<or> \<not> uint x < 2147483648)"
  using uint_32_bounds[of x] by (auto simp add: word_sle_eq sint_32_cases word_uint_eq_iff)

lemma sle_nonneg:
  "uint (a :: 32 word) < 2147483648 \<Longrightarrow> uint (b :: 32 word) < 2147483648
     \<Longrightarrow> (a \<le>s b) = (uint a \<le> uint b)"
  by (simp add: word_sle_eq sint_32_small)

lemma normalize_loop_diverges:
  assumes "normalize_loop len nxt m = Some y"
  shows "\<not> (len = 0 \<and> m \<le>s 0)"
proof (rule normalize_loop.raw_induct
    [where P = "\<lambda>len nxt m y. \<not> (len = 0 \<and> m \<le>s 0)", OF _ assms])
  fix nl :: "s32 \<Rightarrow> s32 \<Rightarrow> s32 \<Rightarrow> (s32 \<times> s32) option"
  fix len nxt m :: s32 and y :: "s32 \<times> s32"
  assume IH: "\<And>a b c z. nl a b c = Some z \<Longrightarrow> \<not> (a = 0 \<and> c \<le>s 0)"
    and eq: "(if m \<le>s 0 then nl len (nxt - len) (m + len) else Some (nxt, m)) = Some y"
  show "\<not> (len = 0 \<and> m \<le>s 0)"
  proof
    assume a: "len = 0 \<and> m \<le>s 0"
    with eq have "nl 0 nxt m = Some y" by simp
    from IH[OF this] a show False by simp
  qed
qed

lemma ctx_ok_uint:
  "ctx_ok ctx = (0 < uint (stream_length ctx) \<and> uint (stream_length ctx) < 2147483648
                  \<and> uint (next_sector ctx) \<le> uint (stream_length ctx))"
proof (cases "uint (stream_length ctx) < 2147483648 \<and> uint (next_sector ctx) < 2147483648")
  case True
  then show ?thesis
    by (simp add: ctx_ok_def pos_iff nonneg_iff sle_nonneg)
next
  case False
  then show ?thesis
    by (auto simp add: ctx_ok_def pos_iff nonneg_iff)
qed

section \<open>The subtraction loop on a valid cursor\<close>

lemma normalize_loop_ok:
  assumes "ctx_ok ctx"
  shows "normalize_loop (stream_length ctx) (next_sector ctx)
           (stream_length ctx - next_sector ctx)
         = Some (wrap_cursor ctx, stream_length ctx - wrap_cursor ctx)"
proof -
  let ?L = "stream_length ctx" and ?n = "next_sector ctx"
  from assms have L: "0 < uint ?L" "uint ?L < 2147483648" and n: "uint ?n \<le> uint ?L"
    by (simp_all add: ctx_ok_uint)
  have Lpos: "\<not> ?L \<le>s 0"
    using L by (auto simp add: sle0_iff)
  show ?thesis
  proof (cases "?n = ?L")
    case True
    have "normalize_loop ?L ?L 0 = normalize_loop ?L 0 ?L"
      by (subst normalize_loop.simps) simp
    also have "\<dots> = Some (0, ?L)"
      using Lpos by (subst normalize_loop.simps) simp
    finally show ?thesis using True by (simp add: wrap_cursor_def)
  next
    case False
    have d: "uint (?L - ?n) = uint ?L - uint ?n"
      using n by (simp add: uint_sub_lem[symmetric])
    have "uint ?n \<noteq> uint ?L" using False by (simp add: word_uint_eq_iff)
    moreover have "0 \<le> uint ?n" by simp
    ultimately have "0 < uint (?L - ?n)" "uint (?L - ?n) < 2147483648"
      using n d L by linarith+
    then have "\<not> (?L - ?n) \<le>s 0"
      by (auto simp add: sle0_iff)
    then show ?thesis using False
      by (subst normalize_loop.simps) (simp add: wrap_cursor_def)
  qed
qed

lemma wrap_cursor_uint:
  assumes "ctx_ok ctx"
  shows "uint (wrap_cursor ctx) < uint (stream_length ctx)"
    and "uint (wrap_cursor ctx) = uint (next_sector ctx) mod uint (stream_length ctx)"
proof -
  let ?L = "stream_length ctx" and ?n = "next_sector ctx"
  from assms have L: "0 < uint ?L" "uint ?L < 2147483648" and n: "uint ?n \<le> uint ?L"
    by (simp_all add: ctx_ok_uint)
  show "uint (wrap_cursor ctx) < uint ?L"
    using L n by (auto simp add: wrap_cursor_def word_uint_eq_iff)
  show "uint (wrap_cursor ctx) = uint ?n mod uint ?L"
    using L n uint_32_bounds[of ?n]
    by (auto simp add: wrap_cursor_def word_uint_eq_iff mod_pos_pos_trivial)
qed

lemma Audio_FeedStream_issue:
  assumes "ctx_ok ctx" "\<not> cd_busy p" "\<not> refill_bytes p < REFILL_THRESHOLD * 2048"
  shows "Audio_FeedStream p ctx =
           Some (True,
                 Some (start_lba ctx + wrap_cursor ctx,
                       min (feed_bytes p div 2048) (stream_length ctx - wrap_cursor ctx)),
                 ctx\<lparr>next_sector := wrap_cursor ctx
                          + min (feed_bytes p div 2048) (stream_length ctx - wrap_cursor ctx),
                     refill_length :=
                          min (feed_bytes p div 2048) (stream_length ctx - wrap_cursor ctx)\<rparr>)"
  using assms(2,3)
  by (auto simp add: Audio_FeedStream_def normalize_loop_ok[OF assms(1)] Let_def min_def)

section \<open>One call of the scheduler\<close>

lemma ctx_inv_uint:
  "ctx_inv ctx = (uint (stream_length ctx) < 2147483648
                   \<and> uint (next_sector ctx) \<le> uint (stream_length ctx))"
proof (cases "uint (stream_length ctx) < 2147483648 \<and> uint (next_sector ctx) < 2147483648")
  case True
  then show ?thesis
    by (simp add: ctx_inv_def nonneg_iff sle_nonneg)
next
  case False
  then show ?thesis
    by (auto simp add: ctx_inv_def nonneg_iff)
qed

lemma ctx_inv_cases:
  assumes "ctx_inv ctx"
  shows "ctx_ok ctx \<or> (stream_length ctx = 0 \<and> next_sector ctx = 0)"
proof (cases "stream_length ctx = 0")
  case True
  with assms have "uint (next_sector ctx) \<le> 0" by (simp add: ctx_inv_uint)
  then have "uint (next_sector ctx) = 0" by simp
  then have "next_sector ctx = 0" by (simp add: word_uint_eq_iff)
  with True show ?thesis by simp
next
  case False
  then have "uint (stream_length ctx) \<noteq> 0" by (simp add: word_uint_eq_iff)
  then have "0 < uint (stream_length ctx)"
    using uint_32_bounds[of "stream_length ctx"] by linarith
  with assms show ?thesis by (simp add: ctx_inv_uint ctx_ok_uint)
qed

lemma ctx_ok_imp_inv: "ctx_ok ctx \<Longrightarrow> ctx_inv ctx"
  by (simp add: ctx_inv_uint ctx_ok_uint)

lemma normalize_loop_None:
  "len = 0 \<Longrightarrow> m \<le>s 0 \<Longrightarrow> normalize_loop len nxt m = None"
  using normalize_loop_diverges[of len nxt m] by (cases "normalize_loop len nxt m") auto

lemma Audio_FeedStream_idle:
  "cd_busy p \<or> refill_bytes p < REFILL_THRESHOLD * 2048 \<Longrightarrow>
     Audio_FeedStream p ctx = Some (cd_busy p, None, ctx)"
  by (auto simp add: Audio_FeedStream_def)

lemma Audio_FeedStream_issue':
  assumes "ctx_ok ctx" "\<not> cd_busy p" "\<not> refill_bytes p < REFILL_THRESHOLD * 2048"
  shows "Audio_FeedStream p ctx =
           Some (True, Some (start_lba ctx + wrap_cursor ctx, issue_len p ctx),
                 ctx\<lparr>next_sector := wrap_cursor ctx + issue_len p ctx,
                     refill_length := issue_len p ctx\<rparr>)"
  unfolding issue_len_def by (rule Audio_FeedStream_issue[OF assms])

lemma Audio_FeedStream_zero:
  assumes "stream_length ctx = 0" "0 \<le>s next_sector ctx"
    "\<not> cd_busy p" "\<not> refill_bytes p < REFILL_THRESHOLD * 2048"
  shows "Audio_FeedStream p ctx = None"
proof -
  have "uint (next_sector ctx) < 2147483648" using assms(2) by (simp add: nonneg_iff)
  have "- next_sector ctx \<le>s 0"
  proof (cases "next_sector ctx = 0")
    case True
    then show ?thesis by simp
  next
    case False
    then have "uint (next_sector ctx) \<noteq> 0" by (simp add: word_uint_eq_iff)
    then have pos: "0 < uint (next_sector ctx)"
      using uint_32_bounds[of "next_sector ctx"] by linarith
    have "uint (- next_sector ctx) = 4294967296 - uint (next_sector ctx)"
      using pos uint_sub_if'[of 0 "next_sector ctx"] by simp
    with \<open>uint (next_sector ctx) < 2147483648\<close>
    have "\<not> uint (- next_sector ctx) < 2147483648" by linarith
    then show ?thesis by (simp only: sle0_iff) simp
  qed
  then have "normalize_loop 0 (next_sector ctx) (- next_sector ctx) = None"
    by (rule normalize_loop_None[OF refl])
  then show ?thesis using assms(1,3,4) by (simp add: Audio_FeedStream_def)
qed

lemma tick_cases:
  assumes "ctx_inv ctx" "Audio_FeedStream p ctx = Some (r, rd, ctx')"
  shows "(rd = None \<and> ctx' = ctx) \<or>
         (ctx_ok ctx \<and> \<not> cd_busy p \<and> \<not> refill_bytes p < REFILL_THRESHOLD * 2048 \<and> r \<and>
          rd = Some (start_lba ctx + wrap_cursor ctx, issue_len p ctx) \<and>
          ctx' = ctx\<lparr>next_sector := wrap_cursor ctx + issue_len p ctx,
                      refill_length := issue_len p ctx\<rparr>)"
proof (cases "cd_busy p \<or> refill_bytes p < REFILL_THRESHOLD * 2048")
  case True
  from Audio_FeedStream_idle[OF this, of ctx] assms(2) show ?thesis by simp
next
  case False
  then have np: "\<not> cd_busy p" "\<not> refill_bytes p < REFILL_THRESHOLD * 2048" by simp_all
  from ctx_inv_cases[OF assms(1)] show ?thesis
  proof
    assume ok: "ctx_ok ctx"
    from Audio_FeedStream_issue'[OF ok np] assms(2) ok np show ?thesis by simp
  next
    assume z: "stream_length ctx = 0 \<and> next_sector ctx = 0"
    then have "Audio_FeedStream p ctx = None"
      using np by (intro Audio_FeedStream_zero) simp_all
    with assms(2) show ?thesis by simp
  qed
qed

lemma issue_uint:
  assumes "ctx_ok ctx"
  shows "uint (issue_len p ctx)
           = min (uint (feed_bytes p) div 2048)
                 (uint (stream_length ctx) - uint (wrap_cursor ctx))"
    and "uint (wrap_cursor ctx + issue_len p ctx)
           = uint (wrap_cursor ctx) + uint (issue_len p ctx)"
proof -
  let ?L = "stream_length ctx" and ?w = "wrap_cursor ctx"
  from assms have L: "0 < uint ?L" "uint ?L < 2147483648"
    by (simp_all add: ctx_ok_uint)
  have w: "uint ?w < uint ?L" by (rule wrap_cursor_uint(1)[OF assms])
  have d: "uint (?L - ?w) = uint ?L - uint ?w"
    using w by (simp add: uint_sub_lem[symmetric])
  have f: "uint (feed_bytes p div 2048) = uint (feed_bytes p) div 2048"
    by (simp add: uint_div)
  show l: "uint (issue_len p ctx) = min (uint (feed_bytes p) div 2048) (uint ?L - uint ?w)"
    using d f by (simp add: issue_len_def min_def word_le_def)
  have "uint ?w + uint (issue_len p ctx) < 2 ^ LENGTH(32)"
    using l L w by simp
  then show "uint (?w + issue_len p ctx) = uint ?w + uint (issue_len p ctx)"
    by (simp only: uint_add_lem)
qed

section \<open>Invariant and cursor along a run\<close>

lemma cd_read_handler_ctx: "snd (cd_read_handler ev ctx) = ctx"
  by (simp add: cd_read_handler_def)

lemma cursor_wrap: "ctx_ok ctx \<Longrightarrow> uint (wrap_cursor ctx) = cursor ctx"
  by (simp add: cursor_def wrap_cursor_uint(2))

lemma tick_inv:
  assumes "ctx_inv ctx" "Audio_FeedStream p ctx = Some (r, rd, ctx')"
  shows "ctx_inv ctx' \<and> stream_length ctx' = stream_length ctx \<and> start_lba ctx' = start_lba ctx"
  using tick_cases[OF assms]
proof
  assume "rd = None \<and> ctx' = ctx"
  with assms(1) show ?thesis by simp
next
  assume a: "ctx_ok ctx \<and> \<not> cd_busy p \<and> \<not> refill_bytes p < REFILL_THRESHOLD * 2048 \<and> r \<and>
          rd = Some (start_lba ctx + wrap_cursor ctx, issue_len p ctx) \<and>
          ctx' = ctx\<lparr>next_sector := wrap_cursor ctx + issue_len p ctx,
                      refill_length := issue_len p ctx\<rparr>"
  then have ok: "ctx_ok ctx" by simp
  have "uint (wrap_cursor ctx + issue_len p ctx) \<le> uint (stream_length ctx)"
    using issue_uint[OF ok, of p] wrap_cursor_uint(1)[OF ok] by simp
  moreover have "uint (stream_length ctx) < 2147483648"
    using ok by (simp add: ctx_ok_uint)
  ultimately show ?thesis using a by (simp add: ctx_inv_uint)
qed

lemma tick_cursor:
  assumes "ctx_inv ctx" "Audio_FeedStream p ctx = Some (r, rd, ctx')"
  shows "cursor ctx' = (cursor ctx + read_len rd) mod uint (stream_length ctx)"
  using tick_cases[OF assms]
proof
  assume "rd = None \<and> ctx' = ctx"
  then show ?thesis by (simp add: read_len_def cursor_def)
next
  assume a: "ctx_ok ctx \<and> \<not> cd_busy p \<and> \<not> refill_bytes p < REFILL_THRESHOLD * 2048 \<and> r \<and>
          rd = Some (start_lba ctx + wrap_cursor ctx, issue_len p ctx) \<and>
          ctx' = ctx\<lparr>next_sector := wrap_cursor ctx + issue_len p ctx,
                      refill_length := issue_len p ctx\<rparr>"
  then have ok: "ctx_ok ctx" by simp
  from a have "cursor ctx' = uint (wrap_cursor ctx + issue_len p ctx) mod uint (stream_length ctx)"
    by (simp add: cursor_def)
  also have "\<dots> = (cursor ctx + uint (issue_len p ctx)) mod uint (stream_length ctx)"
    by (simp only: issue_uint(2)[OF ok] cursor_wrap[OF ok])
  finally show ?thesis using a by (simp add: read_len_def)
qed

lemma tick_read:
  assumes "ctx_inv ctx" "Audio_FeedStream p ctx = Some (r, Some (lba, n), ctx')"
  shows "ctx_ok ctx \<and> \<not> cd_busy p \<and> \<not> refill_bytes p < REFILL_THRESHOLD * 2048 \<and> r \<and>
         lba = start_lba ctx + wrap_cursor ctx \<and> n = issue_len p ctx \<and>
         next_sector ctx' = wrap_cursor ctx + n \<and> refill_length ctx' = n"
  using tick_cases[OF assms] by auto

lemma tick_read_uint:
  assumes "ctx_inv ctx" "Audio_FeedStream p ctx = Some (r, Some (lba, n), ctx')"
  shows "uint (lba - start_lba ctx) = cursor ctx"
    and "uint n = min (uint (feed_bytes p) div 2048) (uint (stream_length ctx) - cursor ctx)"
    and "cursor ctx < uint (stream_length ctx)"
    and "uint (next_sector ctx') = cursor ctx + uint n"
proof -
  from tick_read[OF assms] have ok: "ctx_ok ctx"
    and lba: "lba = start_lba ctx + wrap_cursor ctx" and n: "n = issue_len p ctx"
    and nx: "next_sector ctx' = wrap_cursor ctx + n" by simp_all
  show "uint (lba - start_lba ctx) = cursor ctx"
    by (simp add: lba cursor_wrap[OF ok])
  show "uint n = min (uint (feed_bytes p) div 2048) (uint (stream_length ctx) - cursor ctx)"
    by (simp only: n issue_uint(1)[OF ok] cursor_wrap[OF ok])
  show "cursor ctx < uint (stream_length ctx)"
    using wrap_cursor_uint(1)[OF ok] by (simp only: cursor_wrap[OF ok])
  show "uint (next_sector ctx') = cursor ctx + uint n"
    by (simp only: nx n issue_uint(2)[OF ok] cursor_wrap[OF ok])
qed

lemma run_inv:
  assumes "ctx_inv ctx" "run es ctx = Some (reads, ctx')"
  shows "ctx_inv ctx' \<and> stream_length ctx' = stream_length ctx \<and> start_lba ctx' = start_lba ctx"
  using assms
proof (induction es arbitrary: ctx reads)
  case Nil
  then show ?case by simp
next
  case (Cons e es)
  show ?case
  proof (cases e)
    case (Tick p)
    with Cons.prems(2) obtain r rd ctx1 reads1 where
      t: "Audio_FeedStream p ctx = Some (r, rd, ctx1)" and
      rest: "run es ctx1 = Some (reads1, ctx')"
      by (auto split: option.splits)
    from tick_inv[OF Cons.prems(1) t] Cons.IH[OF _ rest] show ?thesis by simp
  next
    case (Completion ev)
    with Cons.prems(2) have "run es ctx = Some (reads, ctx')"
      by (simp add: cd_read_handler_ctx)
    from Cons.IH[OF Cons.prems(1) this] show ?thesis .
  qed
qed

lemma run_cursor:
  assumes "ctx_inv ctx" "run es ctx = Some (reads, ctx')"
  shows "cursor ctx' = (cursor ctx + reads_total reads) mod uint (stream_length ctx)"
  using assms
proof (induction es arbitrary: ctx reads)
  case Nil
  then show ?case by (simp add: reads_total_def cursor_def)
next
  case (Cons e es)
  show ?case
  proof (cases e)
    case (Tick p)
    with Cons.prems(2) obtain r rd ctx1 reads1 where
      t: "Audio_FeedStream p ctx = Some (r, rd, ctx1)" and
      rest: "run es ctx1 = Some (reads1, ctx')" and
      reads: "reads = (case rd of None \<Rightarrow> [] | Some q \<Rightarrow> [q]) @ reads1"
      by (auto split: option.splits)
    from tick_inv[OF Cons.prems(1) t] have i1: "ctx_inv ctx1"
      and L: "stream_length ctx1 = stream_length ctx" by simp_all
    have tot: "reads_total reads = read_len rd + reads_total reads1"
      by (simp add: reads reads_total_def read_len_def split: option.splits)
    have "cursor ctx' = (cursor ctx1 + reads_total reads1) mod uint (stream_length ctx)"
      using Cons.IH[OF i1 rest] L by simp
    also have "\<dots> = ((cursor ctx + read_len rd) mod uint (stream_length ctx)
                      + reads_total reads1) mod uint (stream_length ctx)"
      by (simp only: tick_cursor[OF Cons.prems(1) t])
    also have "\<dots> = (cursor ctx + reads_total reads) mod uint (stream_length ctx)"
      by (simp only: tot mod_add_left_eq add.assoc)
    finally show ?thesis .
  next
    case (Completion ev)
    with Cons.prems(2) have "run es ctx = Some (reads, ctx')"
      by (simp add: cd_read_handler_ctx)
    from Cons.IH[OF Cons.prems(1) this] show ?thesis .
  qed
qed

lemma setup_ctx:
  assumes "Audio_LoadStream_setup path loop pos vag = Inr st"
  shows "ctx_inv (read_ctx st) \<and> next_sector (read_ctx st) = 0
         \<and> refill_length (read_ctx st) = 0"
proof -
  from assms obtain lba chunks where
    rc: "read_ctx st = \<lparr>start_lba = lba + 1,
            stream_length = (num_channels vag * chunks * interleave vag + 2047) div 2048,
            next_sector = 0, refill_length = 0\<rparr>"
    by (auto simp add: Audio_LoadStream_setup_def split: option.splits)
  let ?x = "num_channels vag * chunks * interleave vag + 2047"
  have "uint (?x div 2048) = uint ?x div 2048" by (simp add: uint_div)
  also have "\<dots> < 2147483648" using uint_32_bounds[of ?x] by linarith
  finally show ?thesis by (simp add: rc ctx_inv_uint)
qed

section \<open>Termination of the subtraction loop\<close>

lemma sint_add_no_overflow:
  fixes m L :: "32 word"
  assumes "sint m \<le> 0" "0 < sint L"
  shows "sint (m + L) = sint m + sint L"
proof -
  have "- (2 ^ 31) \<le> sint m" using sint_ge[of m] by simp
  moreover have "sint L < 2 ^ 31" using sint_lt[of L] by simp
  ultimately have "- (2 ^ 31) \<le> sint m + sint L" "sint m + sint L < 2 ^ 31"
    using assms by linarith+
  then have "signed_take_bit 31 (sint m + sint L) = sint m + sint L"
    by (intro signed_take_bit_int_eq_self) simp_all
  then show ?thesis by (simp add: sint_word_ariths)
qed

lemma normalize_loop_terminates:
  assumes "0 <s len"
  shows "\<exists>y. normalize_loop len nxt m = Some y"
proof (induction "nat (1 - sint m)" arbitrary: nxt m rule: less_induct)
  case less
  show ?case
  proof (cases "m \<le>s 0")
    case False
    then show ?thesis by (subst normalize_loop.simps) simp
  next
    case True
    then have m: "sint m \<le> 0" by (simp add: word_sle_eq)
    from assms have L: "0 < sint len" by (simp add: word_sless_alt)
    have "sint (m + len) = sint m + sint len"
      by (rule sint_add_no_overflow[OF m L])
    with m L have "nat (1 - sint (m + len)) < nat (1 - sint m)" by linarith
    from less[OF this] obtain y where "normalize_loop len (nxt - len) (m + len) = Some y"
      by blast
    with True show ?thesis by (subst normalize_loop.simps) simp
  qed
qed

lemma Audio_FeedStream_total:
  assumes "0 <s stream_length ctx"
  shows "Audio_FeedStream p ctx \<noteq> None"
proof -
  obtain a b where "normalize_loop (stream_length ctx) (next_sector ctx)
      (stream_length ctx - next_sector ctx) = Some (a, b)"
    using normalize_loop_terminates[OF assms] by (metis surj_pair)
  then show ?thesis by (auto simp add: Audio_FeedStream_def Let_def)
qed

section \<open>Byte order and ceilings\<close>

lemma ceil_div:
  fixes a b :: int
  assumes "0 < b"
  shows "\<lceil>real_of_int a / real_of_int b\<rceil> = (a + b - 1) div b"
proof -
  define q where "q = (a + b - 1) div b"
  define r where "r = (a + b - 1) mod b"
  have r: "0 \<le> r" "r < b" using assms by (simp_all add: r_def)
  have "a + b - 1 = q * b + r" by (simp add: q_def r_def)
  then have "- a = (- q) * b + (b - 1 - r)" by (simp add: algebra_simps)
  then have "(- a) div b = (- q) + (b - 1 - r) div b"
    using assms by (simp only: div_mult_self3) 
  also have "(b - 1 - r) div b = 0"
    using r by (intro div_pos_pos_trivial) simp_all
  finally have "- ((- a) div b) = q" by simp
  then show ?thesis by (simp add: ceiling_divide_eq_div q_def)
qed

lemma swap_masks:
  "(0xff :: u32) = mask 8" "(0xff00 :: u32) = push_bit 8 (mask 8)"
  "(0xff0000 :: u32) = push_bit 16 (mask 8)" "(0xff000000 :: u32) = push_bit 24 (mask 8)"
  by (simp_all add: mask_eq_exp_minus_1 push_bit_eq_mult)

lemma bit_u8: "bit (b :: u8) k \<Longrightarrow> k < 8"
  using bit_imp_le_length[of b k] by simp

lemma SWAP_ENDIAN_le32: "SWAP_ENDIAN (le32 b0 b1 b2 b3) = be32 b0 b1 b2 b3"
proof (rule bit_word_eqI)
  fix n :: nat
  assume n: "n < LENGTH(32)"
  consider "n < 8" | "8 \<le> n" "n < 16" | "16 \<le> n" "n < 24" | "24 \<le> n" "n < 32"
    using n by fastforce
  then show "bit (SWAP_ENDIAN (le32 b0 b1 b2 b3)) n = bit (be32 b0 b1 b2 b3) n"
  proof cases
    case 1
    then show ?thesis
      unfolding SWAP_ENDIAN_def le32_def be32_def swap_masks
      by (auto simp add: bit_simps dest: bit_u8)
  next
    case 2
    then show ?thesis
      unfolding SWAP_ENDIAN_def le32_def be32_def swap_masks
      by (auto simp add: bit_simps dest: bit_u8)
  next
    case 3
    then show ?thesis
      unfolding SWAP_ENDIAN_def le32_def be32_def swap_masks
      by (auto simp add: bit_simps dest: bit_u8)
  next
    case 4
    then show ?thesis
      unfolding SWAP_ENDIAN_def le32_def be32_def swap_masks
      by (auto simp add: bit_simps dest: bit_u8)
  qed
qed

lemma num_chunks_uint:
  assumes "interleave vag \<noteq> 0"
    and "uint (SWAP_ENDIAN (size_field vag)) + uint (interleave vag) - 1 < 4294967296"
  shows "\<exists>chunks. num_chunks vag = Some chunks \<and>
           uint chunks = \<lceil>real_of_int (uint (SWAP_ENDIAN (size_field vag)))
                            / real_of_int (uint (interleave vag))\<rceil>"
proof -
  let ?S = "SWAP_ENDIAN (size_field vag)" and ?i = "interleave vag"
  have "uint ?i \<noteq> 0" using assms(1) by (simp add: word_uint_eq_iff)
  then have i: "0 < uint ?i" using uint_32_bounds[of ?i] by linarith
  have "uint (?S + ?i - 1) = (uint ?S + uint ?i - 1) mod 4294967296"
    by (simp add: uint_word_ariths mod_simps)
  also have "\<dots> = uint ?S + uint ?i - 1"
    using assms(2) i uint_32_bounds[of ?S] by (intro mod_pos_pos_trivial) linarith+
  finally have "uint ((?S + ?i - 1) div ?i) = (uint ?S + uint ?i - 1) div uint ?i"
    by (simp add: uint_div)
  then have "uint ((?S + ?i - 1) div ?i)
               = \<lceil>real_of_int (uint ?S) / real_of_int (uint ?i)\<rceil>"
    by (simp only: ceil_div[OF i])
  moreover have "num_chunks vag = Some ((?S + ?i - 1) div ?i)"
    using assms(1) by (simp add: num_chunks_def)
  ultimately show ?thesis by blast
qed

lemma stream_length_uint:
  fixes n c i :: u32
  assumes "uint n * uint c * uint i + 2047 < 4294967296"
  shows "uint ((n * c * i + 2047) div 2048)
           = \<lceil>real_of_int (uint n * uint c * uint i) / 2048\<rceil>"
proof -
  have "uint (n * c * i + 2047) = (uint n * uint c * uint i + 2047) mod 4294967296"
    by (simp add: uint_word_ariths mod_simps)
  also have "\<dots> = uint n * uint c * uint i + 2047"
    using assms by (intro mod_pos_pos_trivial) simp_all
  finally have "uint ((n * c * i + 2047) div 2048) = (uint n * uint c * uint i + 2047) div 2048"
    by (simp add: uint_div)
  then show ?thesis
    using ceil_div[of 2048 "uint n * uint c * uint i"] by simp
qed

lemma ceiling_times_ge:
  fixes a b :: int
  assumes "0 < b"
  shows "a \<le> \<lceil>real_of_int a / real_of_int b\<rceil> * b"
proof -
  have "(a + b - 1) div b * b = (a + b - 1) - (a + b - 1) mod b"
    by (simp add: minus_mod_eq_div_mult)
  moreover have "(a + b - 1) mod b < b" using assms by simp
  ultimately have "a \<le> (a + b - 1) div b * b" by linarith
  then show ?thesis by (simp only: ceil_div[OF assms])
qed

section \<open>Opening a stream: channel count and empty streams\<close>

lemma ucast16_uint: "uint (ucast (c :: u16) :: u32) = uint c"
  by (rule uint_up_ucast) (simp add: is_up)

lemma ucast16_unat: "unat (ucast (c :: u16) :: u32) = unat c"
  unfolding unat_eq_nat_uint ucast16_uint by (rule refl)

lemma num_channels_uint:
  "uint (num_channels vag) = (if channels vag = 0 then 2 else uint (channels vag))"
  by (simp add: num_channels_def ucast16_uint)

lemma num_channels_unat:
  "unat (num_channels vag) = (if channels vag = 0 then 2 else unat (channels vag))"
  by (simp add: num_channels_def ucast16_unat)

lemma Audio_LoadStream_hangs:
  assumes "Audio_LoadStream_setup path loop file_pos vag = Inr st"
    and "stream_length (read_ctx st) = 0"
    and "\<not> cd_busy (env 0)" "\<not> refill_bytes (env 0) < REFILL_THRESHOLD * 2048"
  shows "Audio_LoadStream env path loop file_pos vag = None"
proof -
  have "0 \<le>s next_sector (read_ctx st)"
    using setup_ctx[OF assms(1)] by simp
  from Audio_FeedStream_zero[OF assms(2) this assms(3,4)]
  have "fill_loop env 0 [] (read_ctx st) = None"
    by (subst fill_loop.simps) simp
  then show ?thesis using assms(1) by (simp add: Audio_LoadStream_def)
qed

section \<open>Reads issued along a run; the fill loop as a run\<close>

lemma run_reads:
  assumes "ctx_inv ctx" "run es ctx = Some (reads, ctx')"
  shows "\<forall>q \<in> set reads.
           uint (fst q - start_lba ctx) < uint (stream_length ctx) \<and>
           uint (fst q - start_lba ctx) + uint (snd q) \<le> uint (stream_length ctx)"
  using assms
proof (induction es arbitrary: ctx reads)
  case Nil
  then show ?case by simp
next
  case (Cons e es)
  show ?case
  proof (cases e)
    case (Tick p)
    with Cons.prems(2) obtain r rd ctx1 reads1 where
      t: "Audio_FeedStream p ctx = Some (r, rd, ctx1)" and
      rest: "run es ctx1 = Some (reads1, ctx')" and
      reads: "reads = (case rd of None \<Rightarrow> [] | Some q \<Rightarrow> [q]) @ reads1"
      by (auto split: option.splits)
    from tick_inv[OF Cons.prems(1) t] have i1: "ctx_inv ctx1"
      and L: "stream_length ctx1 = stream_length ctx"
      and S: "start_lba ctx1 = start_lba ctx" by simp_all
    have tl: "\<forall>q \<in> set reads1.
           uint (fst q - start_lba ctx) < uint (stream_length ctx) \<and>
           uint (fst q - start_lba ctx) + uint (snd q) \<le> uint (stream_length ctx)"
      using Cons.IH[OF i1 rest] by (simp only: L S)
    show ?thesis
    proof (cases rd)
      case None
      with reads tl show ?thesis by simp
    next
      case (Some q)
      obtain lba n where q: "q = (lba, n)" by (cases q)
      from t Some q have t': "Audio_FeedStream p ctx = Some (r, Some (lba, n), ctx1)" by simp
      have "uint (lba - start_lba ctx) < uint (stream_length ctx)"
        using tick_read_uint(1,3)[OF Cons.prems(1) t'] by simp
      moreover have "uint (lba - start_lba ctx) + uint n \<le> uint (stream_length ctx)"
        using tick_read_uint(1,2)[OF Cons.prems(1) t'] by simp
      ultimately show ?thesis using reads tl Some q by simp
    qed
  next
    case (Completion ev)
    with Cons.prems(2) have "run es ctx = Some (reads, ctx')"
      by (simp add: cd_read_handler_ctx)
    from Cons.IH[OF Cons.prems(1) this] show ?thesis .
  qed
qed

lemma fill_loop_is_run:
  assumes "fill_loop env i acc ctx = Some y"
  shows "\<exists>es rs. run es ctx = Some (rs, snd y) \<and> fst y = acc @ rs"
proof (rule fill_loop.raw_induct
    [where P = "\<lambda>env i acc ctx y. \<exists>es rs. run es ctx = Some (rs, snd y) \<and> fst y = acc @ rs",
      OF _ assms])
  fix fl :: "(nat \<Rightarrow> Poll) \<Rightarrow> nat \<Rightarrow> (s32 \<times> u32) list \<Rightarrow> StreamReadContext
     \<Rightarrow> ((s32 \<times> u32) list \<times> StreamReadContext) option"
  fix env i acc ctx y
  assume IH: "\<And>env i acc ctx y. fl env i acc ctx = Some y \<Longrightarrow>
               \<exists>es rs. run es ctx = Some (rs, snd y) \<and> fst y = acc @ rs"
    and eq: "(case Audio_FeedStream (env i) ctx of
        None \<Rightarrow> None
      | Some (r, rd, ctx') \<Rightarrow>
          if r then fl env (Suc i) (acc @ (case rd of None \<Rightarrow> [] | Some q \<Rightarrow> [q])) ctx'
          else Some (acc @ (case rd of None \<Rightarrow> [] | Some q \<Rightarrow> [q]), ctx')) = Some y"
  from eq obtain r rd ctx1 where t: "Audio_FeedStream (env i) ctx = Some (r, rd, ctx1)"
    by (auto split: option.splits)
  let ?rdl = "case rd of None \<Rightarrow> [] | Some q \<Rightarrow> [q]"
  show "\<exists>es rs. run es ctx = Some (rs, snd y) \<and> fst y = acc @ rs"
  proof (cases r)
    case True
    with eq t have "fl env (Suc i) (acc @ ?rdl) ctx1 = Some y" by simp
    from IH[OF this] obtain es rs where
      r: "run es ctx1 = Some (rs, snd y)" and f: "fst y = (acc @ ?rdl) @ rs" by blast
    have "run (Tick (env i) # es) ctx = Some (?rdl @ rs, snd y)"
      using t r by simp
    with f show ?thesis by (metis append.assoc)
  next
    case False
    with eq t have y: "y = (acc @ ?rdl, ctx1)" by simp
    have "run [Tick (env i)] ctx = Some (?rdl, ctx1)"
      using t by simp
    with y show ?thesis by (metis fst_conv snd_conv)
  qed
qed

lemma Audio_LoadStream_is_run:
  assumes "Audio_LoadStream env path loop file_pos vag = Some (Inr (reads, st'))"
  shows "\<exists>st es. Audio_LoadStream_setup path loop file_pos vag = Inr st \<and>
           run es (read_ctx st) = Some (reads, read_ctx st') \<and>
           st' = st\<lparr>read_ctx := read_ctx st'\<rparr>"
proof -
  from assms obtain st ctx where s: "Audio_LoadStream_setup path loop file_pos vag = Inr st"
    and f: "fill_loop env 0 [] (read_ctx st) = Some (reads, ctx)"
    and st': "st' = st\<lparr>read_ctx := ctx\<rparr>"
    by (auto simp add: Audio_LoadStream_def split: sum.splits option.splits)
  from fill_loop_is_run[OF f] obtain es where "run es (read_ctx st) = Some (reads, ctx)"
    by auto
  with s st' show ?thesis by auto
qed

section \<open>The scheduler on the ring buffer\<close>

lemma unat_of_nat_small: "n < 4294967296 \<Longrightarrow> unat (of_nat n :: u32) = n"
  by (simp add: unat_of_nat)

lemma sector_multiple: "2048 dvd unat (r * 2048 :: u32)"
proof -
  have "unat (r * 2048 :: u32) = (unat r * 2048) mod 4294967296"
    by (simp add: unat_word_ariths)
  moreover have "(2048 :: nat) dvd unat r * 2048" by simp
  moreover have "(2048 :: nat) dvd 4294967296" by simp
  ultimately show ?thesis by (simp only: dvd_mod)
qed

lemma handler_feeds_sectors:
  "fst (cd_read_handler ev ctx) = Some n \<Longrightarrow> 2048 dvd unat n"
  using sector_multiple[of "refill_length ctx"]
  by (auto simp add: cd_read_handler_def split: if_splits)

lemma Stream_Init_ok:
  assumes "Audio_LoadStream_setup path loop file_pos vag = Inr st"
  shows "rb_ok (Stream_Init (stream_config st))"
proof -
  from assms have "cfg_buffer_size (stream_config st) = RAM_BUFFER_SIZE"
    by (auto simp add: Audio_LoadStream_setup_def split: option.splits)
  then show ?thesis by (simp add: rb_ok_def Stream_Init_def RAM_BUFFER_SIZE_def)
qed

lemma Stream_Feed_ok:
  assumes "rb_ok rb" "2048 dvd unat n"
  shows "rb_ok (Stream_Feed n rb)"
proof -
  from assms(1) have s: "rb_size rb = 98304" and w: "2048 dvd rb_write rb"
    by (simp_all add: rb_ok_def RAM_BUFFER_SIZE_def)
  have "(2048 :: nat) dvd 98304" by simp
  with w assms(2) have "2048 dvd (rb_write rb + unat n) mod 98304"
    by (simp only: dvd_mod dvd_add)
  then show ?thesis using s by (simp add: rb_ok_def Stream_Feed_def RAM_BUFFER_SIZE_def)
qed

lemma Stream_Drain_ok: "rb_ok rb \<Longrightarrow> rb_ok (Stream_Drain k rb)"
  by (simp add: rb_ok_def Stream_Drain_def)

lemma feed_ptr_sector:
  assumes "rb_ok rb" "\<not> Stream_GetRefillLength rb < REFILL_THRESHOLD * 2048"
  shows "2048 \<le> Stream_GetFeedPtr rb"
proof -
  from assms(1) have s: "rb_size rb = 98304" and wl: "rb_write rb < 98304"
    and w: "2048 dvd rb_write rb"
    by (simp_all add: rb_ok_def RAM_BUFFER_SIZE_def)
  from w obtain k where k: "rb_write rb = 2048 * k" by (auto simp add: dvd_def)
  with wl have "k < 48" by simp
  then have "k \<le> 47" by simp
  then have "rb_write rb \<le> 96256" using k by simp
  then have e: "2048 \<le> 98304 - rb_write rb" by simp
  have "unat (Stream_GetRefillLength rb) = 98304 - rb_used rb"
    by (simp add: Stream_GetRefillLength_def s unat_of_nat_small)
  moreover have "unat (REFILL_THRESHOLD * 2048 :: u32) = 49152"
    by (simp add: REFILL_THRESHOLD_def)
  ultimately have f: "49152 \<le> 98304 - rb_used rb"
    using assms(2) by (simp add: word_less_nat_alt)
  have "unat (Stream_GetFeedPtr rb) = min (98304 - rb_used rb) (98304 - rb_write rb)"
    by (simp add: Stream_GetFeedPtr_def s unat_of_nat_small)
  with e f have "2048 \<le> unat (Stream_GetFeedPtr rb)" by simp
  then show ?thesis by (simp add: word_le_nat_alt)
qed

lemma tick_rb_positive:
  assumes "ctx_inv ctx" "rb_ok rb"
    and "Audio_FeedStream (observe busy rb) ctx = Some (r, Some (lba, n), ctx')"
  shows "0 < n"
proof -
  note u = tick_read_uint[OF assms(1,3)]
  from tick_read[OF assms(1,3)]
  have "\<not> Stream_GetRefillLength rb < REFILL_THRESHOLD * 2048"
    by (simp add: observe_def)
  from feed_ptr_sector[OF assms(2) this] have "2048 \<le> uint (Stream_GetFeedPtr rb)"
    by (simp add: word_le_def)
  then have "1 \<le> uint (Stream_GetFeedPtr rb) div 2048" by linarith
  moreover have "0 < uint (stream_length ctx) - cursor ctx" using u(3) by simp
  ultimately have "0 < uint n" using u(2) by (simp add: observe_def)
  then show ?thesis by (simp add: word_less_alt)
qed

lemma sys_run_inv:
  assumes "ctx_inv ctx" "rb_ok rb" "sys_run es ctx rb = Some (reads, ctx', rb')"
  shows "ctx_inv ctx' \<and> rb_ok rb' \<and> stream_length ctx' = stream_length ctx
         \<and> (\<forall>q \<in> set reads. 0 < snd q)"
  using assms
proof (induction es arbitrary: ctx rb reads)
  case Nil
  then show ?case by simp
next
  case (Cons e es)
  show ?case
  proof (cases e)
    case (Feed_tick busy)
    with Cons.prems(3) obtain r rd ctx1 reads1 where
      t: "Audio_FeedStream (observe busy rb) ctx = Some (r, rd, ctx1)" and
      rest: "sys_run es ctx1 rb = Some (reads1, ctx', rb')" and
      reads: "reads = (case rd of None \<Rightarrow> [] | Some q \<Rightarrow> [q]) @ reads1"
      by (auto split: option.splits)
    from tick_inv[OF Cons.prems(1) t] have i1: "ctx_inv ctx1"
      and L: "stream_length ctx1 = stream_length ctx" by simp_all
    note ih = Cons.IH[OF i1 Cons.prems(2) rest]
    have "\<forall>q \<in> set (case rd of None \<Rightarrow> [] | Some q \<Rightarrow> [q]). 0 < snd q"
    proof (cases rd)
      case None
      then show ?thesis by simp
    next
      case (Some q)
      obtain lba n where q: "q = (lba, n)" by (cases q)
      from t Some q have "Audio_FeedStream (observe busy rb) ctx = Some (r, Some (lba, n), ctx1)"
        by simp
      from tick_rb_positive[OF Cons.prems(1,2) this] Some q show ?thesis by simp
    qed
    with ih L reads show ?thesis by auto
  next
    case (Read_done ev)
    let ?rb = "case fst (cd_read_handler ev ctx) of None \<Rightarrow> rb | Some n \<Rightarrow> Stream_Feed n rb"
    from Read_done Cons.prems(3) have rest: "sys_run es ctx ?rb = Some (reads, ctx', rb')"
      by (simp add: cd_read_handler_ctx)
    have "rb_ok ?rb"
    proof (cases "fst (cd_read_handler ev ctx)")
      case None
      with Cons.prems(2) show ?thesis by simp
    next
      case (Some n)
      from Stream_Feed_ok[OF Cons.prems(2) handler_feeds_sectors[OF Some]] Some
      show ?thesis by simp
    qed
    from Cons.IH[OF Cons.prems(1) this rest] show ?thesis .
  next
    case (Drained k)
    with Cons.prems(3) have rest: "sys_run es ctx (Stream_Drain k rb) = Some (reads, ctx', rb')"
      by simp
    from Cons.IH[OF Cons.prems(1) Stream_Drain_ok[OF Cons.prems(2)] rest] show ?thesis .
  qed
qed

section \<open>The claims\<close>

text \<open>
  C10.  With the drive idle and the refill threshold reached, \<open>Audio_FeedStream\<close> returns
  exactly when \<open>stream_length\<close> is at least 1: on a stream of length 0 the loop
  \<open>while (max_length <= 0)\<close> subtracts and adds 0 for ever.  The two sign conditions hold
  in every state that \<open>Audio_LoadStream\<close> and \<open>Audio_FeedStream\<close> produce.
\<close>

theorem Audio_FeedStream_terminates_iff:
  assumes "\<not> cd_busy p" "\<not> refill_bytes p < REFILL_THRESHOLD * 2048"
    and "0 \<le>s stream_length ctx" "0 \<le>s next_sector ctx"
  shows "(Audio_FeedStream p ctx = None) = (stream_length ctx = 0)"
proof (cases "stream_length ctx = 0")
  case True
  from Audio_FeedStream_zero[OF True assms(4) assms(1,2)] True show ?thesis by simp
next
  case False
  then have "uint (stream_length ctx) \<noteq> 0" by (simp add: word_uint_eq_iff)
  then have "0 < uint (stream_length ctx)"
    using uint_32_bounds[of "stream_length ctx"] by linarith
  with assms(3) have "0 <s stream_length ctx" by (simp add: pos_iff nonneg_iff)
  from Audio_FeedStream_total[OF this, of p] False show ?thesis by simp
qed

text \<open>
  An instance: a header of total size 0 is set up with \<open>stream_length = 0\<close>, and in
  that state the first call with the ring buffer empty does not return.
\<close>

theorem Audio_FeedStream_terminates_iff_witness:
  "Audio_LoadStream_setup ''SONG.VAG'' False (Some 100)
     \<lparr>magic = 0x69474156, version = 0, interleave = 4096, size_field = 0,
      sample_rate = 0x44AC0000, reserved = [0, 0, 0, 0, 0], channels = 2, name = []\<rparr>
   = Inr \<lparr>stream_config =
            \<lparr>cfg_spu_address = 0x1010, cfg_channel_mask = 3, cfg_interleave = 4096,
             cfg_buffer_size = 0x18000, cfg_refill_threshold = 0, cfg_sample_rate = 44100\<rparr>,
          stream_sample_rate = 44100, stream_samples = 0,
          spu_ch_vol = [(0x3fff, 0), (0, 0x3fff)],
          read_ctx = \<lparr>start_lba = 101, stream_length = 0, next_sector = 0, refill_length = 0\<rparr>\<rparr> \<and>
   \<not> cd_busy \<lparr>cd_busy = False, refill_bytes = 0x18000, feed_bytes = 0x18000\<rparr> \<and>
   \<not> refill_bytes \<lparr>cd_busy = False, refill_bytes = 0x18000, feed_bytes = 0x18000\<rparr>
       < REFILL_THRESHOLD * 2048 \<and>
   0 \<le>s stream_length \<lparr>start_lba = 101, stream_length = 0, next_sector = 0, refill_length = 0\<rparr> \<and>
   0 \<le>s next_sector \<lparr>start_lba = 101, stream_length = 0, next_sector = 0, refill_length = 0\<rparr> \<and>
   Audio_FeedStream \<lparr>cd_busy = False, refill_bytes = 0x18000, feed_bytes = 0x18000\<rparr>
     \<lparr>start_lba = 101, stream_length = 0, next_sector = 0, refill_length = 0\<rparr> = None"
proof -
  have h: "Audio_LoadStream_setup ''SONG.VAG'' False (Some 100)
     \<lparr>magic = 0x69474156, version = 0, interleave = 4096, size_field = 0,
      sample_rate = 0x44AC0000, reserved = [0, 0, 0, 0, 0], channels = 2, name = []\<rparr>
   = Inr \<lparr>stream_config =
            \<lparr>cfg_spu_address = 0x1010, cfg_channel_mask = 3, cfg_interleave = 4096,
             cfg_buffer_size = 0x18000, cfg_refill_threshold = 0, cfg_sample_rate = 44100\<rparr>,
          stream_sample_rate = 44100, stream_samples = 0,
          spu_ch_vol = [(0x3fff, 0), (0, 0x3fff)],
          read_ctx = \<lparr>start_lba = 101, stream_length = 0, next_sector = 0, refill_length = 0\<rparr>\<rparr>"
    by (simp add: Audio_LoadStream_setup_def num_chunks_def num_channels_def SWAP_ENDIAN_def
        channel_mask_loop_def channel_vol_def STREAM_BUFFER_ADDR_def RAM_BUFFER_SIZE_def
        upt_rec)
  from Audio_FeedStream_terminates_iff
    [of "\<lparr>cd_busy = False, refill_bytes = 0x18000, feed_bytes = 0x18000\<rparr>"
        "\<lparr>start_lba = 101, stream_length = 0, next_sector = 0, refill_length = 0\<rparr>"]
    h
  show ?thesis by (simp add: REFILL_THRESHOLD_def)
qed

text \<open>
  C3 (as the code has it).  \<open>Audio_LoadStream\<close> never reads \<open>magic\<close> or \<open>version\<close>: the
  result is the same for every value of the two fields, and opening fails only when the
  file is not found (\<open>ErrorLock\<close>) or the division by \<open>interleave\<close> traps.
\<close>

theorem Audio_LoadStream_ignores_magic:
  "Audio_LoadStream env path loop file_pos (vag\<lparr>magic := m, version := v\<rparr>)
     = Audio_LoadStream env path loop file_pos vag
   \<and> ((\<exists>e. Audio_LoadStream env path loop file_pos vag = Some (Inl e))
        = (file_pos = None \<or> interleave vag = 0))"
proof
  have "Audio_LoadStream_setup path loop file_pos (vag\<lparr>magic := m, version := v\<rparr>)
          = Audio_LoadStream_setup path loop file_pos vag"
    by (simp add: Audio_LoadStream_setup_def num_chunks_def num_channels_def
        split: option.splits)
  then show "Audio_LoadStream env path loop file_pos (vag\<lparr>magic := m, version := v\<rparr>)
     = Audio_LoadStream env path loop file_pos vag"
    by (simp add: Audio_LoadStream_def)
  show "(\<exists>e. Audio_LoadStream env path loop file_pos vag = Some (Inl e))
        = (file_pos = None \<or> interleave vag = 0)"
    by (auto simp add: Audio_LoadStream_def Audio_LoadStream_setup_def num_chunks_def
        split: option.splits)
qed

text \<open>
  C3 as stated fails: a header whose magic is not \<open>0x69474156\<close> is opened like any other.
\<close>

theorem unrecognised_magic_opens:
  "(0 :: u32) \<noteq> 0x69474156 \<and>
   Audio_LoadStream_setup ''SONG.VAG'' False (Some 100)
     \<lparr>magic = 0, version = 0, interleave = 4096, size_field = 0x00A00000,
      sample_rate = 0x44AC0000, reserved = [0, 0, 0, 0, 0], channels = 2, name = []\<rparr>
   = Inr \<lparr>stream_config =
            \<lparr>cfg_spu_address = 0x1010, cfg_channel_mask = 3, cfg_interleave = 4096,
             cfg_buffer_size = 0x18000, cfg_refill_threshold = 0, cfg_sample_rate = 44100\<rparr>,
          stream_sample_rate = 44100, stream_samples = 71680,
          spu_ch_vol = [(0x3fff, 0), (0, 0x3fff)],
          read_ctx = \<lparr>start_lba = 101, stream_length = 40, next_sector = 0, refill_length = 0\<rparr>\<rparr>"
  by (simp add: Audio_LoadStream_setup_def num_chunks_def num_channels_def SWAP_ENDIAN_def
      channel_mask_loop_def channel_vol_def STREAM_BUFFER_ADDR_def RAM_BUFFER_SIZE_def
      upt_rec)

text \<open>
  C9.  A channel count of 0 in the header stands for 2, any other count is taken as it
  is, and it is this number that the channel loop (volumes, channel mask) and the stream
  length are computed from.
\<close>

theorem num_channels_default:
  assumes "Audio_LoadStream_setup path loop file_pos vag = Inr st"
  shows "uint (num_channels vag) = (if channels vag = 0 then 2 else uint (channels vag))
    \<and> spu_ch_vol st
        = map channel_vol [0..<(if channels vag = 0 then 2 else unat (channels vag))]
    \<and> cfg_channel_mask (stream_config st)
        = channel_mask_loop (if channels vag = 0 then 2 else unat (channels vag))
    \<and> (\<exists>chunks. num_chunks vag = Some chunks \<and>
          stream_length (read_ctx st)
            = ((if channels vag = 0 then 2 else ucast (channels vag)) * chunks * interleave vag
                + 2047) div 2048)
    \<and> (channels vag = 0 \<longrightarrow>
          Audio_LoadStream_setup path loop file_pos (vag\<lparr>channels := 2\<rparr>) = Inr st)"
proof -
  from assms obtain pos chunks where fp: "file_pos = Some pos"
    and nc: "num_chunks vag = Some chunks"
    by (auto simp add: Audio_LoadStream_setup_def split: option.splits)
  from assms have vols: "spu_ch_vol st = map channel_vol [0..<unat (num_channels vag)]"
    and msk: "cfg_channel_mask (stream_config st) = channel_mask_loop (unat (num_channels vag))"
    and len: "stream_length (read_ctx st)
                = (num_channels vag * chunks * interleave vag + 2047) div 2048"
    by (auto simp add: Audio_LoadStream_setup_def fp nc)
  have n: "num_channels vag = (if channels vag = 0 then 2 else ucast (channels vag))"
    by (simp add: num_channels_def)
  have same: "Audio_LoadStream_setup path loop file_pos (vag\<lparr>channels := 2\<rparr>) = Inr st"
    if "channels vag = 0"
  proof -
    have "num_channels (vag\<lparr>channels := 2\<rparr>) = num_channels vag"
      using that by (simp add: num_channels_def)
    moreover have "num_chunks (vag\<lparr>channels := 2\<rparr>) = num_chunks vag"
      by (simp add: num_chunks_def)
    ultimately have "Audio_LoadStream_setup path loop file_pos (vag\<lparr>channels := 2\<rparr>)
        = Audio_LoadStream_setup path loop file_pos vag"
      by (simp add: Audio_LoadStream_setup_def fp nc)
    with assms show ?thesis by simp
  qed
  show ?thesis
    using same nc
    by (simp only: num_channels_uint vols msk len num_channels_unat n[symmetric]) simp
qed

text \<open>An instance: a header with channel count 0 opens as the same header with count 2.\<close>

theorem num_channels_default_witness:
  "Audio_LoadStream_setup ''SONG.VAG'' False (Some 100)
     \<lparr>magic = 0x69474156, version = 0, interleave = 4096, size_field = 0x00A00000,
      sample_rate = 0x44AC0000, reserved = [0, 0, 0, 0, 0], channels = 0, name = []\<rparr>
   = Inr \<lparr>stream_config =
            \<lparr>cfg_spu_address = 0x1010, cfg_channel_mask = 3, cfg_interleave = 4096,
             cfg_buffer_size = 0x18000, cfg_refill_threshold = 0, cfg_sample_rate = 44100\<rparr>,
          stream_sample_rate = 44100, stream_samples = 71680,
          spu_ch_vol = [(0x3fff, 0), (0, 0x3fff)],
          read_ctx = \<lparr>start_lba = 101, stream_length = 40, next_sector = 0, refill_length = 0\<rparr>\<rparr>
   \<and> uint (num_channels
        \<lparr>magic = 0x69474156, version = 0, interleave = 4096, size_field = 0x00A00000,
         sample_rate = 0x44AC0000, reserved = [0, 0, 0, 0, 0], channels = 0, name = []\<rparr>) = 2
   \<and> Audio_LoadStream_setup ''SONG.VAG'' False (Some 100)
     \<lparr>magic = 0x69474156, version = 0, interleave = 4096, size_field = 0x00A00000,
      sample_rate = 0x44AC0000, reserved = [0, 0, 0, 0, 0], channels = 2, name = []\<rparr>
   = Inr \<lparr>stream_config =
            \<lparr>cfg_spu_address = 0x1010, cfg_channel_mask = 3, cfg_interleave = 4096,
             cfg_buffer_size = 0x18000, cfg_refill_threshold = 0, cfg_sample_rate = 44100\<rparr>,
          stream_sample_rate = 44100, stream_samples = 71680,
          spu_ch_vol = [(0x3fff, 0), (0, 0x3fff)],
          read_ctx = \<lparr>start_lba = 101, stream_length = 40, next_sector = 0, refill_length = 0\<rparr>\<rparr>"
proof -
  have h: "Audio_LoadStream_setup ''SONG.VAG'' False (Some 100)
     \<lparr>magic = 0x69474156, version = 0, interleave = 4096, size_field = 0x00A00000,
      sample_rate = 0x44AC0000, reserved = [0, 0, 0, 0, 0], channels = 0, name = []\<rparr>
   = Inr \<lparr>stream_config =
            \<lparr>cfg_spu_address = 0x1010, cfg_channel_mask = 3, cfg_interleave = 4096,
             cfg_buffer_size = 0x18000, cfg_refill_threshold = 0, cfg_sample_rate = 44100\<rparr>,
          stream_sample_rate = 44100, stream_samples = 71680,
          spu_ch_vol = [(0x3fff, 0), (0, 0x3fff)],
          read_ctx = \<lparr>start_lba = 101, stream_length = 40, next_sector = 0, refill_length = 0\<rparr>\<rparr>"
    by (simp add: Audio_LoadStream_setup_def num_chunks_def num_channels_def SWAP_ENDIAN_def
        channel_mask_loop_def channel_vol_def STREAM_BUFFER_ADDR_def RAM_BUFFER_SIZE_def
        upt_rec)
  from num_channels_default[OF h] h show ?thesis by simp
qed

text \<open>
  C4 (as the code has it).  Take a state with \<open>0 \<le> next_sector \<le> stream_length\<close>
  (\<open>ctx_inv\<close>; \<open>setup_ctx\<close> and \<open>run_inv\<close> show it for every state the code reaches) on a
  stream that is not empty.  With the drive idle and \<open>Stream_GetRefillLength\<close> at least
  the threshold, \<open>Audio_FeedStream\<close> returns and issues a read.  The read starts at the
  normalised cursor, which is 0 when \<open>next_sector = stream_length\<close> and \<open>next_sector\<close>
  otherwise.  Its length is the minimum of the whole sectors that \<open>Stream_GetFeedPtr\<close>
  offers, a second observation of the ring buffer and not the free space compared with
  the threshold, and of the distance from the normalised cursor to the end of the
  stream.  So the read ends at or before the end, and the next call that issues a read
  starts where this one ended, at 0 if it ended at the end of the stream.  With the
  drive busy or the free space below the threshold nothing is issued and \<open>read_ctx\<close> is
  unchanged.
\<close>

theorem issued_read_at_normalised_cursor:
  assumes "ctx_inv ctx" "stream_length ctx \<noteq> 0"
    and "\<not> cd_busy p" "\<not> refill_bytes p < REFILL_THRESHOLD * 2048"
    and "\<not> cd_busy p'" "\<not> refill_bytes p' < REFILL_THRESHOLD * 2048"
  shows "(\<exists>w n ctx' w' n' ctx''.
        w = (if next_sector ctx = stream_length ctx then 0 else next_sector ctx)
      \<and> Audio_FeedStream p ctx = Some (True, Some (start_lba ctx + w, n), ctx')
      \<and> uint w < uint (stream_length ctx)
      \<and> uint n = min (uint (feed_bytes p) div 2048) (uint (stream_length ctx) - uint w)
      \<and> next_sector ctx' = w + n
      \<and> uint (next_sector ctx') = uint w + uint n
      \<and> uint (next_sector ctx') \<le> uint (stream_length ctx)
      \<and> w' = (if w + n = stream_length ctx then 0 else w + n)
      \<and> Audio_FeedStream p' ctx' = Some (True, Some (start_lba ctx + w', n'), ctx'')
      \<and> uint n' = min (uint (feed_bytes p') div 2048) (uint (stream_length ctx) - uint w'))
    \<and> (cd_busy q \<or> refill_bytes q < REFILL_THRESHOLD * 2048 \<longrightarrow>
          Audio_FeedStream q ctx = Some (cd_busy q, None, ctx))"
proof
  from ctx_inv_cases[OF assms(1)] assms(2) have ok: "ctx_ok ctx" by simp
  let ?w = "wrap_cursor ctx" and ?n = "issue_len p ctx"
  let ?ctx' = "ctx\<lparr>next_sector := ?w + ?n, refill_length := ?n\<rparr>"
  have t1: "Audio_FeedStream p ctx = Some (True, Some (start_lba ctx + ?w, ?n), ?ctx')"
    by (rule Audio_FeedStream_issue'[OF ok assms(3,4)])
  have w: "?w = (if next_sector ctx = stream_length ctx then 0 else next_sector ctx)"
    by (simp add: wrap_cursor_def)
  have wl: "uint ?w < uint (stream_length ctx)" by (rule wrap_cursor_uint(1)[OF ok])
  have n: "uint ?n = min (uint (feed_bytes p) div 2048) (uint (stream_length ctx) - uint ?w)"
    by (rule issue_uint(1)[OF ok])
  have nx: "next_sector ?ctx' = ?w + ?n" by simp
  have nu: "uint (next_sector ?ctx') = uint ?w + uint ?n"
    using issue_uint(2)[OF ok, of p] by simp
  have nl: "uint (next_sector ?ctx') \<le> uint (stream_length ctx)"
    using nu n by simp
  from tick_inv[OF assms(1) t1] have i1: "ctx_inv ?ctx'" by simp
  from ctx_inv_cases[OF i1] assms(2) have ok1: "ctx_ok ?ctx'" by simp
  let ?w' = "wrap_cursor ?ctx'" and ?n' = "issue_len p' ?ctx'"
  have t2: "Audio_FeedStream p' ?ctx'
      = Some (True, Some (start_lba ctx + ?w', ?n'),
              ?ctx'\<lparr>next_sector := ?w' + ?n', refill_length := ?n'\<rparr>)"
    using Audio_FeedStream_issue'[OF ok1 assms(5,6)] by simp
  have w': "?w' = (if ?w + ?n = stream_length ctx then 0 else ?w + ?n)"
    by (simp add: wrap_cursor_def)
  have n': "uint ?n' = min (uint (feed_bytes p') div 2048) (uint (stream_length ctx) - uint ?w')"
    using issue_uint(1)[OF ok1, of p'] by simp
  from w t1 wl n nx nu nl w' t2 n'
  show "\<exists>w n ctx' w' n' ctx''.
        w = (if next_sector ctx = stream_length ctx then 0 else next_sector ctx)
      \<and> Audio_FeedStream p ctx = Some (True, Some (start_lba ctx + w, n), ctx')
      \<and> uint w < uint (stream_length ctx)
      \<and> uint n = min (uint (feed_bytes p) div 2048) (uint (stream_length ctx) - uint w)
      \<and> next_sector ctx' = w + n
      \<and> uint (next_sector ctx') = uint w + uint n
      \<and> uint (next_sector ctx') \<le> uint (stream_length ctx)
      \<and> w' = (if w + n = stream_length ctx then 0 else w + n)
      \<and> Audio_FeedStream p' ctx' = Some (True, Some (start_lba ctx + w', n'), ctx'')
      \<and> uint n' = min (uint (feed_bytes p') div 2048) (uint (stream_length ctx) - uint w')"
    by blast
  show "cd_busy q \<or> refill_bytes q < REFILL_THRESHOLD * 2048 \<longrightarrow>
          Audio_FeedStream q ctx = Some (cd_busy q, None, ctx)"
    using Audio_FeedStream_idle[of q ctx] by blast
qed

text \<open>
  An instance: cursor 35 of 40, 20 sectors offered, 5 sectors read up to the end of the
  stream; the next call runs the subtraction loop and reads 15 sectors at offset 0; with
  only 20 sectors free nothing is issued.
\<close>

theorem issued_read_at_normalised_cursor_witness:
  "ctx_inv \<lparr>start_lba = 101, stream_length = 40, next_sector = 35, refill_length = 0\<rparr> \<and>
   stream_length \<lparr>start_lba = 101, stream_length = 40, next_sector = 35, refill_length = 0\<rparr> \<noteq> 0 \<and>
   \<not> cd_busy \<lparr>cd_busy = False, refill_bytes = 0xC000, feed_bytes = 0xA000\<rparr> \<and>
   \<not> refill_bytes \<lparr>cd_busy = False, refill_bytes = 0xC000, feed_bytes = 0xA000\<rparr>
       < REFILL_THRESHOLD * 2048 \<and>
   \<not> cd_busy \<lparr>cd_busy = False, refill_bytes = 0xF000, feed_bytes = 0x7800\<rparr> \<and>
   \<not> refill_bytes \<lparr>cd_busy = False, refill_bytes = 0xF000, feed_bytes = 0x7800\<rparr>
       < REFILL_THRESHOLD * 2048 \<and>
   Audio_FeedStream \<lparr>cd_busy = False, refill_bytes = 0xC000, feed_bytes = 0xA000\<rparr>
     \<lparr>start_lba = 101, stream_length = 40, next_sector = 35, refill_length = 0\<rparr>
   = Some (True, Some (136, 5),
       \<lparr>start_lba = 101, stream_length = 40, next_sector = 40, refill_length = 5\<rparr>) \<and>
   Audio_FeedStream \<lparr>cd_busy = False, refill_bytes = 0xF000, feed_bytes = 0x7800\<rparr>
     \<lparr>start_lba = 101, stream_length = 40, next_sector = 40, refill_length = 5\<rparr>
   = Some (True, Some (101, 15),
       \<lparr>start_lba = 101, stream_length = 40, next_sector = 15, refill_length = 15\<rparr>) \<and>
   Audio_FeedStream \<lparr>cd_busy = False, refill_bytes = 0xA000, feed_bytes = 0xA000\<rparr>
     \<lparr>start_lba = 101, stream_length = 40, next_sector = 35, refill_length = 0\<rparr>
   = Some (False, None,
       \<lparr>start_lba = 101, stream_length = 40, next_sector = 35, refill_length = 0\<rparr>)"
proof -
  have i: "ctx_inv \<lparr>start_lba = 101, stream_length = 40, next_sector = 35, refill_length = 0\<rparr>"
    by (simp add: ctx_inv_uint)
  have z: "stream_length \<lparr>start_lba = 101, stream_length = 40, next_sector = 35, refill_length = 0\<rparr> \<noteq> 0"
    by simp
  have b1: "\<not> cd_busy \<lparr>cd_busy = False, refill_bytes = 0xC000, feed_bytes = 0xA000\<rparr>"
    and b2: "\<not> cd_busy \<lparr>cd_busy = False, refill_bytes = 0xF000, feed_bytes = 0x7800\<rparr>"
    by simp_all
  have t1: "\<not> refill_bytes \<lparr>cd_busy = False, refill_bytes = 0xC000, feed_bytes = 0xA000\<rparr>
       < REFILL_THRESHOLD * 2048"
    and t2: "\<not> refill_bytes \<lparr>cd_busy = False, refill_bytes = 0xF000, feed_bytes = 0x7800\<rparr>
       < REFILL_THRESHOLD * 2048"
    by (simp_all add: REFILL_THRESHOLD_def)
  have e: "Audio_FeedStream \<lparr>cd_busy = False, refill_bytes = 0xC000, feed_bytes = 0xA000\<rparr>
     \<lparr>start_lba = 101, stream_length = 40, next_sector = 35, refill_length = 0\<rparr>
   = Some (True, Some (136, 5),
       \<lparr>start_lba = 101, stream_length = 40, next_sector = 40, refill_length = 5\<rparr>) \<and>
   Audio_FeedStream \<lparr>cd_busy = False, refill_bytes = 0xF000, feed_bytes = 0x7800\<rparr>
     \<lparr>start_lba = 101, stream_length = 40, next_sector = 40, refill_length = 5\<rparr>
   = Some (True, Some (101, 15),
       \<lparr>start_lba = 101, stream_length = 40, next_sector = 15, refill_length = 15\<rparr>)"
    by (simp add: Audio_FeedStream_def normalize_loop.simps sle0_iff REFILL_THRESHOLD_def)
  from issued_read_at_normalised_cursor[OF i z b1 t1 b2 t2,
      of "\<lparr>cd_busy = False, refill_bytes = 0xA000, feed_bytes = 0xA000\<rparr>"]
  have "Audio_FeedStream \<lparr>cd_busy = False, refill_bytes = 0xA000, feed_bytes = 0xA000\<rparr>
     \<lparr>start_lba = 101, stream_length = 40, next_sector = 35, refill_length = 0\<rparr>
   = Some (False, None,
       \<lparr>start_lba = 101, stream_length = 40, next_sector = 35, refill_length = 0\<rparr>)"
    by (simp add: REFILL_THRESHOLD_def)
  with i z b1 t1 b2 t2 e show ?thesis by blast
qed

text \<open>
  C4 as stated fails when free space is read as the quantity compared with the
  threshold: with 48 sectors free but 10 sectors writable at the write cursor, the read
  issued at offset 0 of 40 is 10 sectors, not the minimum of 48 and 40.
\<close>

theorem contiguous_length_not_free_space:
  "\<not> refill_bytes \<lparr>cd_busy = False, refill_bytes = 0x18000, feed_bytes = 0x5000\<rparr>
       < REFILL_THRESHOLD * 2048 \<and>
   Audio_FeedStream \<lparr>cd_busy = False, refill_bytes = 0x18000, feed_bytes = 0x5000\<rparr>
     \<lparr>start_lba = 101, stream_length = 40, next_sector = 0, refill_length = 0\<rparr>
   = Some (True, Some (101, 10),
       \<lparr>start_lba = 101, stream_length = 40, next_sector = 10, refill_length = 10\<rparr>) \<and>
   uint (10 :: u32) \<noteq> min (uint (0x18000 :: u32) div 2048) (40 - 0)"
  by (simp add: Audio_FeedStream_def normalize_loop.simps sle0_iff REFILL_THRESHOLD_def)

text \<open>
  C6.  On the ring buffer as the spec describes it, set up by \<open>Audio_LoadStream\<close> and
  driven by calls of \<open>Audio_FeedStream\<close>, completions and the drain engine in any order,
  every read issued has a length greater than 0.  In the state reached, a call made
  with the drive busy or with the free space below the threshold (zero free space
  included) issues nothing, leaves \<open>read_ctx\<close> as it is and returns false unless the
  drive is busy; a call made with the drive idle and the threshold reached, on a stream
  that is not empty, returns and issues a read of positive length.  The distance to the
  end of the stream is never 0 after the subtraction loop, and at least one sector is
  writable at the sector-aligned write cursor once the threshold is reached.
\<close>

theorem no_zero_length_read:
  assumes "Audio_LoadStream_setup path loop file_pos vag = Inr st"
    and "sys_run es (read_ctx st) (Stream_Init (stream_config st)) = Some (reads, ctx, rb)"
  shows "(\<forall>q \<in> set reads. 0 < snd q)
    \<and> (busy \<or> Stream_GetRefillLength rb < REFILL_THRESHOLD * 2048 \<longrightarrow>
          Audio_FeedStream (observe busy rb) ctx = Some (busy, None, ctx))
    \<and> (\<not> busy \<and> \<not> Stream_GetRefillLength rb < REFILL_THRESHOLD * 2048
          \<and> stream_length ctx \<noteq> 0 \<longrightarrow>
          (\<exists>lba n ctx'. Audio_FeedStream (observe busy rb) ctx = Some (True, Some (lba, n), ctx')
             \<and> 0 < n))"
proof -
  from setup_ctx[OF assms(1)] have i0: "ctx_inv (read_ctx st)" by simp
  from sys_run_inv[OF i0 Stream_Init_ok[OF assms(1)] assms(2)]
  have i: "ctx_inv ctx" and b: "rb_ok rb" and rs: "\<forall>q \<in> set reads. 0 < snd q"
    by simp_all
  have idle: "Audio_FeedStream (observe busy rb) ctx = Some (busy, None, ctx)"
    if "busy \<or> Stream_GetRefillLength rb < REFILL_THRESHOLD * 2048"
    using Audio_FeedStream_idle[of "observe busy rb" ctx] that by (simp add: observe_def)
  have issue: "\<exists>lba n ctx'. Audio_FeedStream (observe busy rb) ctx
                  = Some (True, Some (lba, n), ctx') \<and> 0 < n"
    if h: "\<not> busy \<and> \<not> Stream_GetRefillLength rb < REFILL_THRESHOLD * 2048
          \<and> stream_length ctx \<noteq> 0"
  proof -
    from ctx_inv_cases[OF i] h have ok: "ctx_ok ctx" by simp
    from h have np: "\<not> cd_busy (observe busy rb)"
      "\<not> refill_bytes (observe busy rb) < REFILL_THRESHOLD * 2048"
      by (simp_all add: observe_def)
    note t = Audio_FeedStream_issue'[OF ok np]
    from tick_rb_positive[OF i b t] t show ?thesis by blast
  qed
  from rs idle issue show ?thesis by blast
qed

text \<open>
  An instance: the stream of 40 sectors on the empty ring buffer; reads of 40 and 8
  sectors, then 20 sectors free and no read.
\<close>

theorem no_zero_length_read_witness:
  "Audio_LoadStream_setup ''SONG.VAG'' False (Some 100)
     \<lparr>magic = 0x69474156, version = 0, interleave = 4096, size_field = 0x00A00000,
      sample_rate = 0x44AC0000, reserved = [0, 0, 0, 0, 0], channels = 2, name = []\<rparr>
   = Inr \<lparr>stream_config =
            \<lparr>cfg_spu_address = 0x1010, cfg_channel_mask = 3, cfg_interleave = 4096,
             cfg_buffer_size = 0x18000, cfg_refill_threshold = 0, cfg_sample_rate = 44100\<rparr>,
          stream_sample_rate = 44100, stream_samples = 71680,
          spu_ch_vol = [(0x3fff, 0), (0, 0x3fff)],
          read_ctx = \<lparr>start_lba = 101, stream_length = 40, next_sector = 0, refill_length = 0\<rparr>\<rparr> \<and>
   sys_run
     [Feed_tick False, Read_done CdlComplete, Feed_tick False, Drained 40960,
      Feed_tick False, Read_done CdlComplete]
     \<lparr>start_lba = 101, stream_length = 40, next_sector = 0, refill_length = 0\<rparr>
     (Stream_Init
        \<lparr>cfg_spu_address = 0x1010, cfg_channel_mask = 3, cfg_interleave = 4096,
             cfg_buffer_size = 0x18000, cfg_refill_threshold = 0, cfg_sample_rate = 44100\<rparr>)
   = Some ([(101, 40), (101, 8)],
       \<lparr>start_lba = 101, stream_length = 40, next_sector = 8, refill_length = 8\<rparr>,
       \<lparr>rb_size = 98304, rb_write = 0, rb_used = 57344\<rparr>) \<and>
   (0 :: u32) < 40 \<and> (0 :: u32) < 8 \<and>
   Audio_FeedStream (observe False \<lparr>rb_size = 98304, rb_write = 0, rb_used = 57344\<rparr>)
     \<lparr>start_lba = 101, stream_length = 40, next_sector = 8, refill_length = 8\<rparr>
   = Some (False, None, \<lparr>start_lba = 101, stream_length = 40, next_sector = 8, refill_length = 8\<rparr>)"
proof -
  have h: "Audio_LoadStream_setup ''SONG.VAG'' False (Some 100)
     \<lparr>magic = 0x69474156, version = 0, interleave = 4096, size_field = 0x00A00000,
      sample_rate = 0x44AC0000, reserved = [0, 0, 0, 0, 0], channels = 2, name = []\<rparr>
   = Inr \<lparr>stream_config =
            \<lparr>cfg_spu_address = 0x1010, cfg_channel_mask = 3, cfg_interleave = 4096,
             cfg_buffer_size = 0x18000, cfg_refill_threshold = 0, cfg_sample_rate = 44100\<rparr>,
          stream_sample_rate = 44100, stream_samples = 71680,
          spu_ch_vol = [(0x3fff, 0), (0, 0x3fff)],
          read_ctx = \<lparr>start_lba = 101, stream_length = 40, next_sector = 0, refill_length = 0\<rparr>\<rparr>"
    by (simp add: Audio_LoadStream_setup_def num_chunks_def num_channels_def SWAP_ENDIAN_def
        channel_mask_loop_def channel_vol_def STREAM_BUFFER_ADDR_def RAM_BUFFER_SIZE_def
        upt_rec)
  have r: "sys_run
     [Feed_tick False, Read_done CdlComplete, Feed_tick False, Drained 40960,
      Feed_tick False, Read_done CdlComplete]
     \<lparr>start_lba = 101, stream_length = 40, next_sector = 0, refill_length = 0\<rparr>
     (Stream_Init
        \<lparr>cfg_spu_address = 0x1010, cfg_channel_mask = 3, cfg_interleave = 4096,
             cfg_buffer_size = 0x18000, cfg_refill_threshold = 0, cfg_sample_rate = 44100\<rparr>)
   = Some ([(101, 40), (101, 8)],
       \<lparr>start_lba = 101, stream_length = 40, next_sector = 8, refill_length = 8\<rparr>,
       \<lparr>rb_size = 98304, rb_write = 0, rb_used = 57344\<rparr>)"
    by (simp add: Audio_FeedStream_def normalize_loop.simps sle0_iff REFILL_THRESHOLD_def
        cd_read_handler_def observe_def Stream_Init_def Stream_GetRefillLength_def
        Stream_GetFeedPtr_def Stream_Feed_def Stream_Drain_def)
  have r': "sys_run
     [Feed_tick False, Read_done CdlComplete, Feed_tick False, Drained 40960,
      Feed_tick False, Read_done CdlComplete]
     (read_ctx
        \<lparr>stream_config =
            \<lparr>cfg_spu_address = 0x1010, cfg_channel_mask = 3, cfg_interleave = 4096,
             cfg_buffer_size = 0x18000, cfg_refill_threshold = 0, cfg_sample_rate = 44100\<rparr>,
          stream_sample_rate = 44100, stream_samples = 71680,
          spu_ch_vol = [(0x3fff, 0), (0, 0x3fff)],
          read_ctx = \<lparr>start_lba = 101, stream_length = 40, next_sector = 0, refill_length = 0\<rparr>\<rparr>)
     (Stream_Init (stream_config
        \<lparr>stream_config =
            \<lparr>cfg_spu_address = 0x1010, cfg_channel_mask = 3, cfg_interleave = 4096,
             cfg_buffer_size = 0x18000, cfg_refill_threshold = 0, cfg_sample_rate = 44100\<rparr>,
          stream_sample_rate = 44100, stream_samples = 71680,
          spu_ch_vol = [(0x3fff, 0), (0, 0x3fff)],
          read_ctx = \<lparr>start_lba = 101, stream_length = 40, next_sector = 0, refill_length = 0\<rparr>\<rparr>))
   = Some ([(101, 40), (101, 8)],
       \<lparr>start_lba = 101, stream_length = 40, next_sector = 8, refill_length = 8\<rparr>,
       \<lparr>rb_size = 98304, rb_write = 0, rb_used = 57344\<rparr>)"
    using r by simp
  from no_zero_length_read[OF h r', of False] h r show ?thesis
    by (simp add: Stream_GetRefillLength_def REFILL_THRESHOLD_def)
qed

text \<open>
  C7 (as the code has it).  With the cursor at 35 of 40, 20 sectors offered by
  \<open>Stream_GetFeedPtr\<close> and the free space reported by \<open>Stream_GetRefillLength\<close> at least
  the threshold of 24 sectors, the read issued is 5 sectors at offset 35 and leaves
  \<open>next_sector = 40\<close>; after its completion, whatever the event, the next call that
  issues a read issues it at offset 0.
\<close>

theorem wrap_scenario:
  assumes "next_sector ctx = 35" "stream_length ctx = 40"
    and "\<not> cd_busy p" "\<not> refill_bytes p < REFILL_THRESHOLD * 2048"
    and "feed_bytes p div 2048 = 20"
    and "\<not> cd_busy p'" "\<not> refill_bytes p' < REFILL_THRESHOLD * 2048"
  shows "\<exists>ctx1 n ctx2.
     Audio_FeedStream p ctx = Some (True, Some (start_lba ctx + 35, 5), ctx1) \<and>
     next_sector ctx1 = 40 \<and>
     Audio_FeedStream p' (snd (cd_read_handler ev ctx1))
       = Some (True, Some (start_lba ctx + 0, n), ctx2)"
proof -
  let ?ctx1 = "ctx\<lparr>next_sector := 40, refill_length := 5\<rparr>"
  have ok: "ctx_ok ctx" using assms(1,2) by (simp add: ctx_ok_uint)
  have w: "wrap_cursor ctx = 35" using assms(1,2) by (simp add: wrap_cursor_def)
  have l: "issue_len p ctx = 5" using assms(2,5) w by (simp add: issue_len_def)
  have t1: "Audio_FeedStream p ctx = Some (True, Some (start_lba ctx + 35, 5), ?ctx1)"
    using Audio_FeedStream_issue'[OF ok assms(3,4)] by (simp add: w l)
  have ok1: "ctx_ok ?ctx1" using assms(2) by (simp add: ctx_ok_uint)
  have w1: "wrap_cursor ?ctx1 = 0" using assms(2) by (simp add: wrap_cursor_def)
  have "Audio_FeedStream p' ?ctx1
          = Some (True, Some (start_lba ctx + 0, issue_len p' ?ctx1),
                  ?ctx1\<lparr>next_sector := 0 + issue_len p' ?ctx1,
                         refill_length := issue_len p' ?ctx1\<rparr>)"
    using Audio_FeedStream_issue'[OF ok1 assms(6,7)] by (simp add: w1)
  then have "Audio_FeedStream p' (snd (cd_read_handler ev ?ctx1))
          = Some (True, Some (start_lba ctx + 0, issue_len p' ?ctx1),
                  ?ctx1\<lparr>next_sector := 0 + issue_len p' ?ctx1,
                         refill_length := issue_len p' ?ctx1\<rparr>)"
    by (simp only: cd_read_handler_ctx)
  with t1 show ?thesis by (intro exI[of _ ?ctx1] exI conjI) simp_all
qed

text \<open>An instance of the scenario, with the stream starting at sector 101.\<close>

theorem wrap_scenario_witness:
  "next_sector \<lparr>start_lba = 101, stream_length = 40, next_sector = 35, refill_length = 0\<rparr> = 35 \<and>
   stream_length \<lparr>start_lba = 101, stream_length = 40, next_sector = 35, refill_length = 0\<rparr> = 40 \<and>
   \<not> cd_busy \<lparr>cd_busy = False, refill_bytes = 0xC000, feed_bytes = 0xA000\<rparr> \<and>
   \<not> refill_bytes \<lparr>cd_busy = False, refill_bytes = 0xC000, feed_bytes = 0xA000\<rparr>
       < REFILL_THRESHOLD * 2048 \<and>
   feed_bytes \<lparr>cd_busy = False, refill_bytes = 0xC000, feed_bytes = 0xA000\<rparr> div 2048 = 20 \<and>
   \<not> cd_busy \<lparr>cd_busy = False, refill_bytes = 0xF000, feed_bytes = 0x8000\<rparr> \<and>
   \<not> refill_bytes \<lparr>cd_busy = False, refill_bytes = 0xF000, feed_bytes = 0x8000\<rparr>
       < REFILL_THRESHOLD * 2048 \<and>
   (\<exists>ctx1 n ctx2.
     Audio_FeedStream \<lparr>cd_busy = False, refill_bytes = 0xC000, feed_bytes = 0xA000\<rparr>
       \<lparr>start_lba = 101, stream_length = 40, next_sector = 35, refill_length = 0\<rparr>
       = Some (True, Some (136, 5), ctx1) \<and>
     next_sector ctx1 = 40 \<and>
     Audio_FeedStream \<lparr>cd_busy = False, refill_bytes = 0xF000, feed_bytes = 0x8000\<rparr>
       (snd (cd_read_handler CdlComplete ctx1))
       = Some (True, Some (101, n), ctx2))"
  using wrap_scenario
    [of "\<lparr>start_lba = 101, stream_length = 40, next_sector = 35, refill_length = 0\<rparr>"
        "\<lparr>cd_busy = False, refill_bytes = 0xC000, feed_bytes = 0xA000\<rparr>"
        "\<lparr>cd_busy = False, refill_bytes = 0xF000, feed_bytes = 0x8000\<rparr>"
        CdlComplete]
  by (simp add: REFILL_THRESHOLD_def)

text \<open>
  C7 as stated fails: when the buffer reports 20 free sectors, which is below the
  threshold of 24, the call returns false and issues no read.
\<close>

theorem twenty_free_blocks_below_threshold:
  "refill_bytes \<lparr>cd_busy = False, refill_bytes = 0xA000, feed_bytes = 0xA000\<rparr> div 2048 = 20 \<and>
   feed_bytes \<lparr>cd_busy = False, refill_bytes = 0xA000, feed_bytes = 0xA000\<rparr> div 2048 = 20 \<and>
   Audio_FeedStream \<lparr>cd_busy = False, refill_bytes = 0xA000, feed_bytes = 0xA000\<rparr>
     \<lparr>start_lba = 101, stream_length = 40, next_sector = 35, refill_length = 0\<rparr>
   = Some (False, None,
       \<lparr>start_lba = 101, stream_length = 40, next_sector = 35, refill_length = 0\<rparr>)"
  by (simp add: Audio_FeedStream_def REFILL_THRESHOLD_def)

text \<open>
  C1 (as the code has it).  \<open>cd_read_handler\<close> never writes \<open>read_ctx\<close>; on
  \<open>CdlDiskError\<close> it does not call \<open>Stream_Feed\<close> either.  But \<open>next_sector\<close> was
  already moved past the requested sectors when the read was issued, so the next read
  starts where the failed one ended (modulo the stream length).  The first state is any
  state with \<open>0 \<le> next_sector \<le> stream_length\<close>.
\<close>

theorem disk_error_does_not_rewind:
  assumes "ctx_inv ctx"
    and "Audio_FeedStream p ctx = Some (r, Some (lba, n), ctx1)"
    and "Audio_FeedStream p' (snd (cd_read_handler CdlDiskError ctx1)) = Some (r', Some (lba', n'), ctx2)"
  shows "cd_read_handler CdlDiskError ctx1 = (None, ctx1)
    \<and> snd (cd_read_handler ev ctx1) = ctx1
    \<and> uint (next_sector ctx1) = uint (lba - start_lba ctx) + uint n
    \<and> uint (lba' - start_lba ctx)
         = (uint (lba - start_lba ctx) + uint n) mod uint (stream_length ctx)"
proof -
  note u = tick_read_uint[OF assms(1,2)]
  from tick_inv[OF assms(1,2)] have i1: "ctx_inv ctx1"
    and L: "stream_length ctx1 = stream_length ctx"
    and S: "start_lba ctx1 = start_lba ctx" by simp_all
  have h: "cd_read_handler CdlDiskError ctx1 = (None, ctx1)"
    by (simp add: cd_read_handler_def)
  from assms(3) have t2: "Audio_FeedStream p' ctx1 = Some (r', Some (lba', n'), ctx2)"
    by (simp only: cd_read_handler_ctx)
  have "uint (lba' - start_lba ctx) = cursor ctx1"
    using tick_read_uint(1)[OF i1 t2] by (simp only: S)
  also have "\<dots> = (cursor ctx + uint n) mod uint (stream_length ctx)"
    using tick_cursor[OF assms(1,2)] by (simp add: read_len_def)
  finally have "uint (lba' - start_lba ctx)
         = (uint (lba - start_lba ctx) + uint n) mod uint (stream_length ctx)"
    by (simp only: u(1))
  moreover have "uint (next_sector ctx1) = uint (lba - start_lba ctx) + uint n"
    by (simp only: u(1) u(4))
  ultimately show ?thesis using h by (simp add: cd_read_handler_ctx)
qed

text \<open>An instance: 30 sectors requested at offset 0, disk error, next read at offset 30.\<close>

theorem disk_error_does_not_rewind_witness:
  "ctx_inv \<lparr>start_lba = 101, stream_length = 40, next_sector = 0, refill_length = 0\<rparr> \<and>
   Audio_FeedStream \<lparr>cd_busy = False, refill_bytes = 0x18000, feed_bytes = 0xF000\<rparr>
     \<lparr>start_lba = 101, stream_length = 40, next_sector = 0, refill_length = 0\<rparr>
   = Some (True, Some (101, 30),
       \<lparr>start_lba = 101, stream_length = 40, next_sector = 30, refill_length = 30\<rparr>) \<and>
   Audio_FeedStream \<lparr>cd_busy = False, refill_bytes = 0x18000, feed_bytes = 0xF000\<rparr>
     (snd (cd_read_handler CdlDiskError
        \<lparr>start_lba = 101, stream_length = 40, next_sector = 30, refill_length = 30\<rparr>))
   = Some (True, Some (131, 10),
       \<lparr>start_lba = 101, stream_length = 40, next_sector = 40, refill_length = 10\<rparr>) \<and>
   uint ((131 :: s32) - 101) = (uint ((101 :: s32) - 101) + uint (30 :: u32)) mod uint (40 :: s32)"
proof -
  have i: "ctx_inv \<lparr>start_lba = 101, stream_length = 40, next_sector = 0, refill_length = 0\<rparr>"
    by (simp add: ctx_inv_uint)
  have t1: "Audio_FeedStream \<lparr>cd_busy = False, refill_bytes = 0x18000, feed_bytes = 0xF000\<rparr>
     \<lparr>start_lba = 101, stream_length = 40, next_sector = 0, refill_length = 0\<rparr>
   = Some (True, Some (101, 30),
       \<lparr>start_lba = 101, stream_length = 40, next_sector = 30, refill_length = 30\<rparr>)"
    by (simp add: Audio_FeedStream_def normalize_loop.simps sle0_iff REFILL_THRESHOLD_def)
  have t2: "Audio_FeedStream \<lparr>cd_busy = False, refill_bytes = 0x18000, feed_bytes = 0xF000\<rparr>
     (snd (cd_read_handler CdlDiskError
        \<lparr>start_lba = 101, stream_length = 40, next_sector = 30, refill_length = 30\<rparr>))
   = Some (True, Some (131, 10),
       \<lparr>start_lba = 101, stream_length = 40, next_sector = 40, refill_length = 10\<rparr>)"
    by (simp add: Audio_FeedStream_def normalize_loop.simps sle0_iff REFILL_THRESHOLD_def
        cd_read_handler_def)
  from disk_error_does_not_rewind[OF i t1 t2] i t1 t2 show ?thesis by simp
qed

text \<open>
  C1 as stated fails: after a disk error on sectors 101 to 130 the next call, with the
  same observations, reads from sector 131; the cursor was advanced to 30 before any
  completion.
\<close>

theorem failed_region_not_retried:
  "Audio_FeedStream \<lparr>cd_busy = False, refill_bytes = 0x18000, feed_bytes = 0xF000\<rparr>
     \<lparr>start_lba = 101, stream_length = 40, next_sector = 0, refill_length = 0\<rparr>
   = Some (True, Some (101, 30),
       \<lparr>start_lba = 101, stream_length = 40, next_sector = 30, refill_length = 30\<rparr>) \<and>
   cd_read_handler CdlDiskError
     \<lparr>start_lba = 101, stream_length = 40, next_sector = 30, refill_length = 30\<rparr>
   = (None, \<lparr>start_lba = 101, stream_length = 40, next_sector = 30, refill_length = 30\<rparr>) \<and>
   Audio_FeedStream \<lparr>cd_busy = False, refill_bytes = 0x18000, feed_bytes = 0xF000\<rparr>
     \<lparr>start_lba = 101, stream_length = 40, next_sector = 30, refill_length = 30\<rparr>
   = Some (True, Some (131, 10),
       \<lparr>start_lba = 101, stream_length = 40, next_sector = 40, refill_length = 10\<rparr>) \<and>
   (131 :: s32) \<noteq> 101"
  by (simp add: Audio_FeedStream_def normalize_loop.simps sle0_iff REFILL_THRESHOLD_def
      cd_read_handler_def)

text \<open>
  C8 (as the code has it).  Along any run from a state with
  \<open>0 \<le> next_sector \<le> stream_length\<close>, the normalised cursor advances by the sum of the
  issued lengths modulo \<open>stream_length\<close>; reads that sum to \<open>stream_length\<close> bring it
  back to where it was.
\<close>

theorem loop_closure:
  assumes "ctx_inv ctx" "run es ctx = Some (reads, ctx')"
  shows "cursor ctx' = (cursor ctx + reads_total reads) mod uint (stream_length ctx)
    \<and> (reads_total reads = uint (stream_length ctx) \<longrightarrow> cursor ctx' = cursor ctx)"
proof -
  have c: "cursor ctx' = (cursor ctx + reads_total reads) mod uint (stream_length ctx)"
    by (rule run_cursor[OF assms])
  have "cursor ctx' = cursor ctx" if "reads_total reads = uint (stream_length ctx)"
  proof -
    have "cursor ctx' = cursor ctx mod uint (stream_length ctx)"
      using c that by simp
    then show ?thesis by (simp add: cursor_def)
  qed
  with c show ?thesis by blast
qed

text \<open>An instance: from cursor 35 of 40, reads of 5 and 35 sectors.\<close>

theorem loop_closure_witness:
  "ctx_inv \<lparr>start_lba = 101, stream_length = 40, next_sector = 35, refill_length = 0\<rparr> \<and>
   run [Tick \<lparr>cd_busy = False, refill_bytes = 0xC000, feed_bytes = 0xA000\<rparr>,
        Completion CdlComplete,
        Tick \<lparr>cd_busy = False, refill_bytes = 0x18000, feed_bytes = 0x11800\<rparr>,
        Completion CdlComplete]
     \<lparr>start_lba = 101, stream_length = 40, next_sector = 35, refill_length = 0\<rparr>
   = Some ([(136, 5), (101, 35)],
       \<lparr>start_lba = 101, stream_length = 40, next_sector = 35, refill_length = 35\<rparr>) \<and>
   reads_total [(136, 5), (101, 35)] = 40 \<and>
   cursor \<lparr>start_lba = 101, stream_length = 40, next_sector = 35, refill_length = 35\<rparr>
   = cursor \<lparr>start_lba = 101, stream_length = 40, next_sector = 35, refill_length = 0\<rparr>"
proof -
  have i: "ctx_inv \<lparr>start_lba = 101, stream_length = 40, next_sector = 35, refill_length = 0\<rparr>"
    by (simp add: ctx_inv_uint)
  have r: "run [Tick \<lparr>cd_busy = False, refill_bytes = 0xC000, feed_bytes = 0xA000\<rparr>,
        Completion CdlComplete,
        Tick \<lparr>cd_busy = False, refill_bytes = 0x18000, feed_bytes = 0x11800\<rparr>,
        Completion CdlComplete]
     \<lparr>start_lba = 101, stream_length = 40, next_sector = 35, refill_length = 0\<rparr>
   = Some ([(136, 5), (101, 35)],
       \<lparr>start_lba = 101, stream_length = 40, next_sector = 35, refill_length = 35\<rparr>)"
    by (simp add: Audio_FeedStream_def normalize_loop.simps sle0_iff REFILL_THRESHOLD_def
        cd_read_handler_def)
  have s: "reads_total [(136, 5), (101, 35)] = 40"
    by (simp add: reads_total_def)
  from loop_closure[OF i r] i r s show ?thesis by simp
qed

text \<open>
  C8 as stated fails for the stored \<open>next_sector\<close>: from 0, one read of the whole stream
  (40 sectors) leaves \<open>next_sector = 40\<close>, not 0.
\<close>

theorem stored_cursor_not_closed:
  "run [Tick \<lparr>cd_busy = False, refill_bytes = 0x18000, feed_bytes = 0x18000\<rparr>,
        Completion CdlComplete]
     \<lparr>start_lba = 101, stream_length = 40, next_sector = 0, refill_length = 0\<rparr>
   = Some ([(101, 40)],
       \<lparr>start_lba = 101, stream_length = 40, next_sector = 40, refill_length = 40\<rparr>) \<and>
   reads_total [(101, 40)]
   = uint (stream_length
       \<lparr>start_lba = 101, stream_length = 40, next_sector = 0, refill_length = 0\<rparr>) \<and>
   next_sector \<lparr>start_lba = 101, stream_length = 40, next_sector = 40, refill_length = 40\<rparr>
   \<noteq> next_sector \<lparr>start_lba = 101, stream_length = 40, next_sector = 0, refill_length = 0\<rparr>"
  by (simp add: Audio_FeedStream_def normalize_loop.simps sle0_iff REFILL_THRESHOLD_def
      cd_read_handler_def reads_total_def)

text \<open>
  C2 (as the code has it).  In every state reached from the state that
  \<open>Audio_LoadStream\<close> sets up, by calls of \<open>Audio_FeedStream\<close> and completions in any
  order, \<open>0 \<le> next_sector \<le> stream_length\<close>: the stored cursor may equal
  \<open>stream_length\<close>.  The subtraction loop of the next issuing call brings it into
  \<open>[0, stream_length)\<close>, and every read issued starts in that range and ends at or
  before \<open>stream_length\<close>.  (By \<open>Audio_LoadStream_is_run\<close> the state in which
  \<open>Audio_LoadStream\<close> returns is one of these states.)
\<close>

theorem next_sector_range:
  assumes "Audio_LoadStream_setup path loop file_pos vag = Inr st"
    and "run es (read_ctx st) = Some (reads, ctx)"
  shows "0 \<le>s stream_length ctx \<and> 0 \<le>s next_sector ctx
    \<and> next_sector ctx \<le>s stream_length ctx
    \<and> stream_length ctx = stream_length (read_ctx st)
    \<and> (stream_length ctx \<noteq> 0 \<longrightarrow> 0 \<le> cursor ctx \<and> cursor ctx < uint (stream_length ctx))
    \<and> (\<forall>q \<in> set reads.
          uint (fst q - start_lba (read_ctx st)) < uint (stream_length ctx) \<and>
          uint (fst q - start_lba (read_ctx st)) + uint (snd q) \<le> uint (stream_length ctx))"
proof -
  from setup_ctx[OF assms(1)] have i0: "ctx_inv (read_ctx st)" by simp
  from run_inv[OF i0 assms(2)] have i: "ctx_inv ctx"
    and L: "stream_length ctx = stream_length (read_ctx st)" by simp_all
  have c: "0 \<le> cursor ctx \<and> cursor ctx < uint (stream_length ctx)"
    if "stream_length ctx \<noteq> 0"
  proof -
    from that have "uint (stream_length ctx) \<noteq> 0" by (simp add: word_uint_eq_iff)
    then have "0 < uint (stream_length ctx)"
      using uint_32_bounds[of "stream_length ctx"] by linarith
    then show ?thesis by (simp add: cursor_def)
  qed
  have rs: "\<forall>q \<in> set reads.
          uint (fst q - start_lba (read_ctx st)) < uint (stream_length ctx) \<and>
          uint (fst q - start_lba (read_ctx st)) + uint (snd q) \<le> uint (stream_length ctx)"
    using run_reads[OF i0 assms(2)] by (simp only: L)
  from i have "0 \<le>s stream_length ctx \<and> 0 \<le>s next_sector ctx
    \<and> next_sector ctx \<le>s stream_length ctx" by (simp add: ctx_inv_def)
  with L c rs show ?thesis by blast
qed

text \<open>An instance: the stream of 40 sectors, three reads, one of them failed.\<close>

theorem next_sector_range_witness:
  "Audio_LoadStream_setup ''SONG.VAG'' False (Some 100)
     \<lparr>magic = 0x69474156, version = 0, interleave = 4096, size_field = 0x00A00000,
      sample_rate = 0x44AC0000, reserved = [0, 0, 0, 0, 0], channels = 2, name = []\<rparr>
   = Inr \<lparr>stream_config =
            \<lparr>cfg_spu_address = 0x1010, cfg_channel_mask = 3, cfg_interleave = 4096,
             cfg_buffer_size = 0x18000, cfg_refill_threshold = 0, cfg_sample_rate = 44100\<rparr>,
          stream_sample_rate = 44100, stream_samples = 71680,
          spu_ch_vol = [(0x3fff, 0), (0, 0x3fff)],
          read_ctx = \<lparr>start_lba = 101, stream_length = 40, next_sector = 0, refill_length = 0\<rparr>\<rparr> \<and>
   run [Tick \<lparr>cd_busy = False, refill_bytes = 0x18000, feed_bytes = 0xF000\<rparr>,
        Completion CdlDiskError,
        Tick \<lparr>cd_busy = False, refill_bytes = 0x18000, feed_bytes = 0xF000\<rparr>,
        Tick \<lparr>cd_busy = True, refill_bytes = 0x18000, feed_bytes = 0xF000\<rparr>,
        Completion CdlComplete,
        Tick \<lparr>cd_busy = False, refill_bytes = 0x13000, feed_bytes = 0x4000\<rparr>]
     \<lparr>start_lba = 101, stream_length = 40, next_sector = 0, refill_length = 0\<rparr>
   = Some ([(101, 30), (131, 10), (101, 8)],
       \<lparr>start_lba = 101, stream_length = 40, next_sector = 8, refill_length = 8\<rparr>) \<and>
   0 \<le>s (8 :: s32) \<and> (8 :: s32) \<le>s 40 \<and>
   cursor \<lparr>start_lba = 101, stream_length = 40, next_sector = 8, refill_length = 8\<rparr> < 40"
proof -
  have h: "Audio_LoadStream_setup ''SONG.VAG'' False (Some 100)
     \<lparr>magic = 0x69474156, version = 0, interleave = 4096, size_field = 0x00A00000,
      sample_rate = 0x44AC0000, reserved = [0, 0, 0, 0, 0], channels = 2, name = []\<rparr>
   = Inr \<lparr>stream_config =
            \<lparr>cfg_spu_address = 0x1010, cfg_channel_mask = 3, cfg_interleave = 4096,
             cfg_buffer_size = 0x18000, cfg_refill_threshold = 0, cfg_sample_rate = 44100\<rparr>,
          stream_sample_rate = 44100, stream_samples = 71680,
          spu_ch_vol = [(0x3fff, 0), (0, 0x3fff)],
          read_ctx = \<lparr>start_lba = 101, stream_length = 40, next_sector = 0, refill_length = 0\<rparr>\<rparr>"
    by (simp add: Audio_LoadStream_setup_def num_chunks_def num_channels_def SWAP_ENDIAN_def
        channel_mask_loop_def channel_vol_def STREAM_BUFFER_ADDR_def RAM_BUFFER_SIZE_def
        upt_rec)
  have r: "run [Tick \<lparr>cd_busy = False, refill_bytes = 0x18000, feed_bytes = 0xF000\<rparr>,
        Completion CdlDiskError,
        Tick \<lparr>cd_busy = False, refill_bytes = 0x18000, feed_bytes = 0xF000\<rparr>,
        Tick \<lparr>cd_busy = True, refill_bytes = 0x18000, feed_bytes = 0xF000\<rparr>,
        Completion CdlComplete,
        Tick \<lparr>cd_busy = False, refill_bytes = 0x13000, feed_bytes = 0x4000\<rparr>]
     \<lparr>start_lba = 101, stream_length = 40, next_sector = 0, refill_length = 0\<rparr>
   = Some ([(101, 30), (131, 10), (101, 8)],
       \<lparr>start_lba = 101, stream_length = 40, next_sector = 8, refill_length = 8\<rparr>)"
    by (simp add: Audio_FeedStream_def normalize_loop.simps sle0_iff REFILL_THRESHOLD_def
        cd_read_handler_def)
  have r': "run [Tick \<lparr>cd_busy = False, refill_bytes = 0x18000, feed_bytes = 0xF000\<rparr>,
        Completion CdlDiskError,
        Tick \<lparr>cd_busy = False, refill_bytes = 0x18000, feed_bytes = 0xF000\<rparr>,
        Tick \<lparr>cd_busy = True, refill_bytes = 0x18000, feed_bytes = 0xF000\<rparr>,
        Completion CdlComplete,
        Tick \<lparr>cd_busy = False, refill_bytes = 0x13000, feed_bytes = 0x4000\<rparr>]
     (read_ctx \<lparr>stream_config =
            \<lparr>cfg_spu_address = 0x1010, cfg_channel_mask = 3, cfg_interleave = 4096,
             cfg_buffer_size = 0x18000, cfg_refill_threshold = 0, cfg_sample_rate = 44100\<rparr>,
          stream_sample_rate = 44100, stream_samples = 71680,
          spu_ch_vol = [(0x3fff, 0), (0, 0x3fff)],
          read_ctx = \<lparr>start_lba = 101, stream_length = 40, next_sector = 0, refill_length = 0\<rparr>\<rparr>)
   = Some ([(101, 30), (131, 10), (101, 8)],
       \<lparr>start_lba = 101, stream_length = 40, next_sector = 8, refill_length = 8\<rparr>)"
    using r by simp
  from next_sector_range[OF h r'] h r show ?thesis by simp
qed

text \<open>
  C2 as stated fails: on the stream of 40 sectors, the first call with the ring buffer
  empty reads all 40 sectors and leaves \<open>next_sector = 40 = stream_length\<close>.
\<close>

theorem next_sector_equals_stream_length:
  "Audio_LoadStream_setup ''SONG.VAG'' False (Some 100)
     \<lparr>magic = 0x69474156, version = 0, interleave = 4096, size_field = 0x00A00000,
      sample_rate = 0x44AC0000, reserved = [0, 0, 0, 0, 0], channels = 2, name = []\<rparr>
   = Inr \<lparr>stream_config =
            \<lparr>cfg_spu_address = 0x1010, cfg_channel_mask = 3, cfg_interleave = 4096,
             cfg_buffer_size = 0x18000, cfg_refill_threshold = 0, cfg_sample_rate = 44100\<rparr>,
          stream_sample_rate = 44100, stream_samples = 71680,
          spu_ch_vol = [(0x3fff, 0), (0, 0x3fff)],
          read_ctx = \<lparr>start_lba = 101, stream_length = 40, next_sector = 0, refill_length = 0\<rparr>\<rparr> \<and>
   Audio_FeedStream \<lparr>cd_busy = False, refill_bytes = 0x18000, feed_bytes = 0x18000\<rparr>
     \<lparr>start_lba = 101, stream_length = 40, next_sector = 0, refill_length = 0\<rparr>
   = Some (True, Some (101, 40),
       \<lparr>start_lba = 101, stream_length = 40, next_sector = 40, refill_length = 40\<rparr>) \<and>
   \<not> (next_sector \<lparr>start_lba = 101, stream_length = 40, next_sector = 40, refill_length = 40\<rparr>
        <s stream_length
            \<lparr>start_lba = 101, stream_length = 40, next_sector = 40, refill_length = 40\<rparr>)"
  by (simp add: Audio_LoadStream_setup_def num_chunks_def num_channels_def SWAP_ENDIAN_def
      channel_mask_loop_def channel_vol_def STREAM_BUFFER_ADDR_def RAM_BUFFER_SIZE_def
      upt_rec Audio_FeedStream_def normalize_loop.simps sle0_iff REFILL_THRESHOLD_def)

text \<open>
  C5 (as the code has it).  Let the header have a nonzero interleave, and let neither
  \<open>size + interleave - 1\<close> nor \<open>channels * chunks * interleave + 2047\<close> exceed 32 bits.
  Then the chunk count is the ceiling of size over interleave, the stream length is the
  ceiling of \<open>channels * chunks * interleave\<close> over 2048, chunks times interleave is at
  least the size, and size and sample rate are the big-endian readings of the header
  bytes.  The geometry is a function of the header alone.
\<close>

theorem geometry_ceilings:
  assumes "interleave vag \<noteq> 0"
    and "size_field vag = le32 b0 b1 b2 b3"
    and "sample_rate vag = le32 r0 r1 r2 r3"
    and "uint (be32 b0 b1 b2 b3) + uint (interleave vag) - 1 < 4294967296"
    and "uint (num_channels vag)
           * \<lceil>real_of_int (uint (be32 b0 b1 b2 b3)) / real_of_int (uint (interleave vag))\<rceil>
           * uint (interleave vag) + 2047 < 4294967296"
  shows "\<exists>chunks st.
      num_chunks vag = Some chunks
    \<and> Audio_LoadStream_setup path loop (Some pos) vag = Inr st
    \<and> uint chunks
        = \<lceil>real_of_int (uint (be32 b0 b1 b2 b3)) / real_of_int (uint (interleave vag))\<rceil>
    \<and> uint (stream_length (read_ctx st))
        = \<lceil>real_of_int (uint (num_channels vag) * uint chunks * uint (interleave vag)) / 2048\<rceil>
    \<and> uint (be32 b0 b1 b2 b3) \<le> uint chunks * uint (interleave vag)
    \<and> cfg_sample_rate (stream_config st) = be32 r0 r1 r2 r3
    \<and> stream_sample_rate st = be32 r0 r1 r2 r3"
proof -
  have S: "SWAP_ENDIAN (size_field vag) = be32 b0 b1 b2 b3"
    by (simp only: assms(2) SWAP_ENDIAN_le32)
  have R: "SWAP_ENDIAN (sample_rate vag) = be32 r0 r1 r2 r3"
    by (simp only: assms(3) SWAP_ENDIAN_le32)
  have "uint (interleave vag) \<noteq> 0" using assms(1) by (simp add: word_uint_eq_iff)
  then have i: "0 < uint (interleave vag)"
    using uint_32_bounds[of "interleave vag"] by linarith
  from num_chunks_uint[OF assms(1)] assms(4) obtain chunks where
    nc: "num_chunks vag = Some chunks" and
    c: "uint chunks
        = \<lceil>real_of_int (uint (be32 b0 b1 b2 b3)) / real_of_int (uint (interleave vag))\<rceil>"
    unfolding S by blast
  define st where "st = \<lparr>stream_config =
                      \<lparr>cfg_spu_address = STREAM_BUFFER_ADDR,
                       cfg_channel_mask = channel_mask_loop (unat (num_channels vag)),
                       cfg_interleave = interleave vag,
                       cfg_buffer_size = RAM_BUFFER_SIZE,
                       cfg_refill_threshold = 0,
                       cfg_sample_rate = SWAP_ENDIAN (sample_rate vag)\<rparr>,
                    stream_sample_rate = SWAP_ENDIAN (sample_rate vag),
                    stream_samples = (SWAP_ENDIAN (size_field vag) div 16) * 28,
                    spu_ch_vol = map channel_vol [0..<unat (num_channels vag)],
                    read_ctx =
                      \<lparr>start_lba = pos + 1,
                       stream_length =
                         (num_channels vag * chunks * interleave vag + 2047) div 2048,
                       next_sector = 0,
                       refill_length = 0\<rparr>\<rparr>"
  have su: "Audio_LoadStream_setup path loop (Some pos) vag = Inr st"
    by (simp add: Audio_LoadStream_setup_def nc st_def)
  have o: "uint (num_channels vag) * uint chunks * uint (interleave vag) + 2047 < 4294967296"
    using assms(5) by (simp only: c)
  have len: "uint (stream_length (read_ctx st))
        = \<lceil>real_of_int (uint (num_channels vag) * uint chunks * uint (interleave vag)) / 2048\<rceil>"
    using stream_length_uint[OF o] by (simp add: st_def)
  have ge: "uint (be32 b0 b1 b2 b3) \<le> uint chunks * uint (interleave vag)"
    using ceiling_times_ge[OF i, of "uint (be32 b0 b1 b2 b3)"] by (simp only: c)
  have sr: "cfg_sample_rate (stream_config st) = be32 r0 r1 r2 r3"
    "stream_sample_rate st = be32 r0 r1 r2 r3"
    by (simp_all add: st_def R)
  from nc su c len ge sr show ?thesis by blast
qed

text \<open>
  An instance: interleave 4096, size 40960 and rate 44100 in big-endian bytes, two
  channels; 10 chunks, 40 sectors.
\<close>

theorem geometry_ceilings_witness:
  "interleave
     \<lparr>magic = 0x69474156, version = 0, interleave = 4096, size_field = 0x00A00000,
        sample_rate = 0x44AC0000, reserved = [0, 0, 0, 0, 0], channels = 2, name = []\<rparr> \<noteq> 0 \<and>
   size_field
     \<lparr>magic = 0x69474156, version = 0, interleave = 4096, size_field = 0x00A00000,
        sample_rate = 0x44AC0000, reserved = [0, 0, 0, 0, 0], channels = 2, name = []\<rparr> = le32 0 0 0xA0 0 \<and>
   sample_rate
     \<lparr>magic = 0x69474156, version = 0, interleave = 4096, size_field = 0x00A00000,
        sample_rate = 0x44AC0000, reserved = [0, 0, 0, 0, 0], channels = 2, name = []\<rparr> = le32 0 0 0xAC 0x44 \<and>
   uint (be32 0 0 0xA0 0) + uint (interleave
     \<lparr>magic = 0x69474156, version = 0, interleave = 4096, size_field = 0x00A00000,
        sample_rate = 0x44AC0000, reserved = [0, 0, 0, 0, 0], channels = 2, name = []\<rparr>) - 1 < 4294967296 \<and>
   uint (num_channels
     \<lparr>magic = 0x69474156, version = 0, interleave = 4096, size_field = 0x00A00000,
        sample_rate = 0x44AC0000, reserved = [0, 0, 0, 0, 0], channels = 2, name = []\<rparr>)
     * \<lceil>real_of_int (uint (be32 0 0 0xA0 0)) / real_of_int (uint (interleave
     \<lparr>magic = 0x69474156, version = 0, interleave = 4096, size_field = 0x00A00000,
        sample_rate = 0x44AC0000, reserved = [0, 0, 0, 0, 0], channels = 2, name = []\<rparr>))\<rceil>
     * uint (interleave
     \<lparr>magic = 0x69474156, version = 0, interleave = 4096, size_field = 0x00A00000,
        sample_rate = 0x44AC0000, reserved = [0, 0, 0, 0, 0], channels = 2, name = []\<rparr>) + 2047 < 4294967296 \<and>
   (\<exists>chunks st.
      num_chunks
       \<lparr>magic = 0x69474156, version = 0, interleave = 4096, size_field = 0x00A00000,
        sample_rate = 0x44AC0000, reserved = [0, 0, 0, 0, 0], channels = 2, name = []\<rparr> = Some chunks \<and>
      Audio_LoadStream_setup ''SONG.VAG'' False (Some 100)
       \<lparr>magic = 0x69474156, version = 0, interleave = 4096, size_field = 0x00A00000,
        sample_rate = 0x44AC0000, reserved = [0, 0, 0, 0, 0], channels = 2, name = []\<rparr> = Inr st \<and>
      be32 0 0 0xA0 0 = 40960 \<and> uint chunks = 10 \<and>
      uint (stream_length (read_ctx st)) = 40 \<and>
      cfg_sample_rate (stream_config st) = 44100)"
proof -
  let ?h = "\<lparr>magic = 0x69474156, version = 0, interleave = 4096, size_field = 0x00A00000,
        sample_rate = 0x44AC0000, reserved = [0, 0, 0, 0, 0], channels = 2, name = []\<rparr>"
  have b: "be32 0 0 0xA0 0 = 40960" "be32 0 0 0xAC 0x44 = 44100"
    by (simp_all add: be32_def)
  have h1: "interleave ?h \<noteq> 0" by simp
  have h2: "size_field ?h = le32 0 0 0xA0 0" by (simp add: le32_def)
  have h3: "sample_rate ?h = le32 0 0 0xAC 0x44" by (simp add: le32_def)
  have h4: "uint (be32 0 0 0xA0 0) + uint (interleave ?h) - 1 < 4294967296"
    by (simp add: b)
  have h5: "uint (num_channels ?h)
     * \<lceil>real_of_int (uint (be32 0 0 0xA0 0)) / real_of_int (uint (interleave ?h))\<rceil>
     * uint (interleave ?h) + 2047 < 4294967296"
    by (simp add: b num_channels_def)
  from geometry_ceilings[OF h1 h2 h3 h4 h5, of "''SONG.VAG''" False 100]
  obtain chunks st where a: "num_chunks ?h = Some chunks"
    "Audio_LoadStream_setup ''SONG.VAG'' False (Some 100) ?h = Inr st"
    "uint chunks
        = \<lceil>real_of_int (uint (be32 0 0 0xA0 0)) / real_of_int (uint (interleave ?h))\<rceil>"
    "uint (stream_length (read_ctx st))
        = \<lceil>real_of_int (uint (num_channels ?h) * uint chunks * uint (interleave ?h)) / 2048\<rceil>"
    "cfg_sample_rate (stream_config st) = be32 0 0 0xAC 0x44"
    by blast
  have c: "uint chunks = 10" using a(3) by (simp add: b)
  have l: "uint (stream_length (read_ctx st)) = 40"
    using a(4) by (simp add: c num_channels_def)
  have r: "cfg_sample_rate (stream_config st) = 44100" using a(5) by (simp only: b)
  from a(1,2) b(1) c l r
  have "\<exists>chunks st.
      num_chunks ?h = Some chunks \<and>
      Audio_LoadStream_setup ''SONG.VAG'' False (Some 100) ?h = Inr st \<and>
      be32 0 0 0xA0 0 = 40960 \<and> uint chunks = 10 \<and>
      uint (stream_length (read_ctx st)) = 40 \<and>
      cfg_sample_rate (stream_config st) = 44100"
    by blast
  with h1 h2 h3 h4 h5 show ?thesis by blast
qed

text \<open>
  C5 as stated fails where the 32-bit sum wraps: for size \<open>0xFFFFFFFF\<close> and interleave
  4096 the chunk count is 0, and 0 chunks of 4096 bytes are fewer than the size.
\<close>

theorem chunk_count_wraps:
  "num_chunks
     \<lparr>magic = 0x69474156, version = 0, interleave = 4096, size_field = 0xFFFFFFFF,
      sample_rate = 0x44AC0000, reserved = [0, 0, 0, 0, 0], channels = 2, name = []\<rparr>
   = Some 0 \<and>
   SWAP_ENDIAN 0xFFFFFFFF = 0xFFFFFFFF \<and>
   \<not> (uint (SWAP_ENDIAN 0xFFFFFFFF) \<le> uint (0 :: u32) * uint (4096 :: u32))"
  by (simp add: num_chunks_def SWAP_ENDIAN_def)

end
